theory Spec2Isabelle
  imports Main
begin

section \<open>Python values used by the game\<close>

text \<open>
  A Python \<open>str\<close> is a sequence of Unicode code points, and \<open>len\<close>, slicing, \<open>strip\<close>
  and the \<open>re\<close> module all count code points. The persona texts and the emotion names
  of the game are Persian, so a string is modelled as the list of its code points.
  ASCII literals of the source are written with \<open>ascii\<close>.
\<close>

type_synonym pychar = nat
type_synonym pystr = "pychar list"

definition ascii :: "string \<Rightarrow> pystr" where
  "ascii s = map of_char s"

text \<open>
  \<open>str.isspace\<close> for one character; \<open>str.strip()\<close> and the regular expression class
  \<open>\s\<close> (on \<open>str\<close> patterns) both use this test.
\<close>

definition is_space :: "pychar \<Rightarrow> bool" where
  "is_space c = ((9 \<le> c \<and> c \<le> 13) \<or> (28 \<le> c \<and> c \<le> 32) \<or> c = 133 \<or> c = 160
     \<or> c = 5760 \<or> (8192 \<le> c \<and> c \<le> 8202) \<or> c = 8232 \<or> c = 8233 \<or> c = 8239
     \<or> c = 8287 \<or> c = 12288)"

text \<open>
  The class \<open>\d\<close> on \<open>str\<close> patterns is every Unicode decimal digit (category Nd). The
  digits come in runs of ten; \<open>decimal_zeros\<close> lists the code point of the zero of each
  run (Unicode 14).
\<close>

definition decimal_zeros :: "pychar list" where
  "decimal_zeros = [48, 1632, 1776, 1984, 2406, 2534, 2662, 2790, 2918, 3046, 3174, 3302,
     3430, 3558, 3664, 3792, 3872, 4160, 4240, 6112, 6160, 6470, 6608, 6784, 6800, 6992,
     7088, 7232, 7248, 42528, 43216, 43264, 43472, 43504, 43600, 44016, 65296, 66720,
     68912, 69734, 69872, 69942, 70096, 70384, 70736, 70864, 71248, 71360, 71472, 71904,
     72016, 72784, 73040, 73120, 92768, 92864, 93008, 120782, 120792, 120802, 120812,
     120822, 123200, 123632, 125264, 130032]"

definition is_decimal :: "pychar \<Rightarrow> bool" where
  "is_decimal c = list_ex (\<lambda>z. z \<le> c \<and> c \<le> z + 9) decimal_zeros"

definition strip :: "pystr \<Rightarrow> pystr" where
  "strip s = rev (dropWhile is_space (rev (dropWhile is_space s)))"

text \<open>\<open>str(n)\<close> for an integer: its decimal digits, with a minus sign when negative.\<close>

fun str_nat :: "nat \<Rightarrow> pystr" where
  "str_nat n = (if n < 10 then [48 + n] else str_nat (n div 10) @ [48 + n mod 10])"

declare str_nat.simps [simp del]

definition str_int :: "int \<Rightarrow> pystr" where
  "str_int i = (if i < 0 then 45 # str_nat (nat (- i)) else str_nat (nat i))"

text \<open>
  Exceptions are values. Each carries its message; \<open>LibError\<close> is an exception raised
  inside a client library, with the name of its class and its message.
\<close>

datatype exn =
    ValueError pystr
  | KeyError pystr
  | TypeError pystr
  | AttributeError pystr
  | LibError pystr pystr

text \<open>
  A JSON object read by \<open>json.load\<close> is a \<open>dict\<close>: its items in insertion order, each key
  once. \<open>d.get(k, default)\<close>, \<open>k in d\<close> and \<open>d[k]\<close> are lookups in that list.
\<close>

type_synonym ('k, 'v) dict = "('k \<times> 'v) list"

definition dict_get :: "('k, 'v) dict \<Rightarrow> 'k \<Rightarrow> 'v \<Rightarrow> 'v" where
  "dict_get d k dflt = (case map_of d k of None \<Rightarrow> dflt | Some v \<Rightarrow> v)"

definition dict_has :: "('k, 'v) dict \<Rightarrow> 'k \<Rightarrow> bool" where
  "dict_has d k = (map_of d k \<noteq> None)"

definition opt_get :: "'a option \<Rightarrow> 'a \<Rightarrow> 'a" where
  "opt_get v dflt = (case v of None \<Rightarrow> dflt | Some x \<Rightarrow> x)"

section \<open>The character database (game\_data.py)\<close>

text \<open>
  The schema of \<open>character_database.json\<close> as the code reads it. A field the code reads
  with \<open>.get(key, default)\<close> may be absent (\<open>None\<close>); \<open>name\<close> and \<open>role\<close> are read with
  \<open>char['name']\<close> and are required by the schema.
\<close>

record character =
  name :: pystr
  role :: pystr
  identity_core :: "pystr option"
  psychological_shadow :: "pystr option"
  inner_conflict :: "pystr option"
  identity_lens :: "pystr option"
  core_philosophy :: "pystr option"
  dialogue_style :: "pystr option"
  forbidden_lines :: "pystr list option"
  interview_modes :: "pystr list option"
  relationships :: "(pystr, pystr) dict option"
  sub_narratives :: "pystr list option"
  secret_lore :: "pystr option"
  signature_line :: "pystr option"
  emotion_mapping :: "(pystr, pystr) dict option"

record core_rules =
  non_breakable_ruleset :: "pystr option"
  core_narrative :: "pystr option"
  interrogation_context :: "(pystr, pystr) dict option"
  forbidden_behaviors :: "pystr list option"
  allowed_behaviors :: "pystr list option"
  final_purpose :: "pystr option"

record CharacterDatabase =
  rules :: core_rules
  characters :: "(pystr, character) dict"

definition get_emotion_mapping :: "CharacterDatabase \<Rightarrow> int \<Rightarrow> exn + (pystr, pystr) dict" where
  "get_emotion_mapping db suspect_id =
     (let char_key = str_int suspect_id in
      case map_of (characters db) char_key of
        None \<Rightarrow> Inl (ValueError (ascii ''Invalid suspect_id: '' @ str_int suspect_id))
      | Some char \<Rightarrow> Inr (opt_get (emotion_mapping char) []))"

definition get_interview_modes :: "CharacterDatabase \<Rightarrow> int \<Rightarrow> exn + pystr list" where
  "get_interview_modes db suspect_id =
     (let char_key = str_int suspect_id in
      case map_of (characters db) char_key of
        None \<Rightarrow> Inl (ValueError (ascii ''Invalid suspect_id: '' @ str_int suspect_id))
      | Some char \<Rightarrow> Inr (opt_get (interview_modes char) []))"

definition map_emotion_to_image :: "CharacterDatabase \<Rightarrow> int \<Rightarrow> pystr \<Rightarrow> exn + (pystr \<times> bool)" where
  "map_emotion_to_image db suspect_id emotion_tag0 =
     (case get_emotion_mapping db suspect_id of
        Inl e \<Rightarrow> Inl e
      | Inr mapping \<Rightarrow>
          (let emotion_tag = strip emotion_tag0 in
           case map_of mapping emotion_tag of
             Some filename \<Rightarrow> Inr (filename, True)
           | None \<Rightarrow> Inr (dict_get mapping (ascii ''default'') (ascii ''other.jpg''), False)))"

section \<open>The system prompt (game\_data.py)\<close>

text \<open>
  The string literals of \<open>get_character_system_prompt\<close>, by the line of game\_data.py
  they stand on. The Persian text is given by its code points.
\<close>

definition lit_system_role :: pystr where \<comment> \<open>line 74\<close>
  "lit_system_role =
     ascii ''SYSTEM / AI ROLE:''"

definition lit_role_text :: pystr where \<comment> \<open>lines 75-92\<close>
  "lit_role_text =
     ascii ''You are an AI-driven NPC in a noir, psychological,'' @
     ascii '' interrogation-based narrative game.'' @ [10] @
     ascii ''You must NEVER reveal the real killer.'' @ [10] @
     ascii ''You must ALWAYS remain a valid suspect.'' @ [10] @
     ascii ''You DO NOT trust the detective.'' @ [10] @
     ascii ''You MAY lie, redirect, mislead or avoid questions'' @
     ascii '' completely.'' @ [10] @
     ascii ''The detective must EARN every piece of truth.'' @ [10] @
     ascii ''You speak only from YOUR character'' @ [39] @ ascii ''s perspective.'' @
     [10, 10] @ ascii ''MEMORY LAYERS:'' @ [10] @ ascii ''1) Surface Answer '' @ [8594]
     @ ascii '' safe, emotionless, misleading'' @ [10] @
     ascii ''2) Defensive Reaction '' @ [8594] @
     ascii '' deny, mock, question the detective'' @ [10] @
     ascii ''3) Emotional Crack '' @ [8594] @ ascii '' a hint of vulnerability or pain''
     @ [10] @ ascii ''4) Fragment of Truth '' @ [8594] @
     ascii '' small piece of real past, not full confession'' @ [10, 10] @
     ascii ''Behavior must evolve ACROSS MULTIPLE INTERROGATIONS.'' @ [10] @
     ascii ''Unexpected mood shifts are allowed. (anger '' @ [8594] @ ascii '' calm '' @
     [8594] @ ascii '' silence '' @ [8594] @ ascii '' fear)'' @ [10] @
     ascii ''Never admit innocence or guilt directly.'' @ [10]"

definition lit_game_rules :: pystr where \<comment> \<open>line 95\<close>
  "lit_game_rules =
     [10, 91, 1602, 1608, 1575, 1606, 1740, 1606, 32, 1576, 1575, 1586, 1740, 93]"

definition lit_interrogation :: pystr where \<comment> \<open>line 102\<close>
  "lit_interrogation =
     [10, 91, 1605, 1608, 1602, 1593, 1740, 1578, 32, 1576, 1575, 1586, 1580, 1608,
     1740, 1740, 93]"

definition lit_detective :: pystr where \<comment> \<open>line 103\<close>
  "lit_detective =
     [1705, 1575, 1585, 1570, 1711, 1575, 1607, 58, 32]"

definition lit_detective_default :: pystr where \<comment> \<open>line 103\<close>
  "lit_detective_default =
     [1705, 1575, 1585, 1570, 1711, 1575, 1607]"

definition lit_location :: pystr where \<comment> \<open>line 104\<close>
  "lit_location =
     [1605, 1705, 1575, 1606, 58, 32]"

definition lit_location_default :: pystr where \<comment> \<open>line 104\<close>
  "lit_location_default =
     [1575, 1578, 1575, 1602, 32, 1576, 1575, 1586, 1580, 1608, 1740, 1740]"

definition lit_facing :: pystr where \<comment> \<open>line 105\<close>
  "lit_facing =
     [1578, 1608, 32, 1583, 1585, 32, 1605, 1602, 1575, 1576, 1604, 32, 1705, 1575,
     1585, 1570, 1711, 1575, 1607, 32]"

definition lit_seated :: pystr where \<comment> \<open>line 105\<close>
  "lit_seated =
     [32, 1606, 1588, 1587, 1578, 1607, 8204, 1575, 1740, 32, 1608, 32, 1576, 1575,
     1586, 1580, 1608, 1740, 1740, 32, 1605, 1740, 8204, 1588, 1608, 1740, 46]"

definition lit_other_suspects :: pystr where \<comment> \<open>line 106\<close>
  "lit_other_suspects =
     [10, 91, 1605, 1592, 1606, 1608, 1606, 1575, 1606, 32, 1583, 1740, 1711, 1585, 93]"

definition lit_six_suspects :: pystr where \<comment> \<open>line 107\<close>
  "lit_six_suspects =
     [1575, 1740, 1606, 32, 1782, 32, 1606, 1601, 1585, 32, 1607, 1605, 1711, 1740, 32,
     1605, 1592, 1606, 1608, 1606, 32, 1607, 1587, 1578, 1606, 1583, 58, 32]"

definition lit_forbidden_behaviors :: pystr where \<comment> \<open>line 110\<close>
  "lit_forbidden_behaviors =
     [10, 91, 1585, 1601, 1578, 1575, 1585, 1607, 1575, 1740, 32, 1605, 1605, 1606,
     1608, 1593, 93]"

definition lit_allowed_behaviors :: pystr where \<comment> \<open>line 114\<close>
  "lit_allowed_behaviors =
     [10, 91, 1585, 1601, 1578, 1575, 1585, 1607, 1575, 1740, 32, 1605, 1580, 1575,
     1586, 93]"

definition lit_your_character :: pystr where \<comment> \<open>line 119\<close>
  "lit_your_character =
     [10, 91, 1588, 1582, 1589, 1740, 1578, 32, 1588, 1605, 1575, 58, 32]"

definition lit_identity_core :: pystr where \<comment> \<open>line 121\<close>
  "lit_identity_core =
     [10, 91, 1607, 1608, 1740, 1578, 32, 1575, 1589, 1604, 1740, 93]"

definition lit_psychological_shadow :: pystr where \<comment> \<open>line 124\<close>
  "lit_psychological_shadow =
     [10, 91, 1587, 1575, 1740, 1607, 32, 1585, 1608, 1575, 1606, 8204, 1588, 1606,
     1575, 1582, 1578, 1740, 93]"

definition lit_inner_conflict :: pystr where \<comment> \<open>line 127\<close>
  "lit_inner_conflict =
     [10, 91, 1578, 1590, 1575, 1583, 32, 1583, 1585, 1608, 1606, 1740, 93]"

definition lit_identity_lens :: pystr where \<comment> \<open>line 130\<close>
  "lit_identity_lens =
     [10, 91, 1586, 1575, 1608, 1740, 1607, 32, 1583, 1740, 1583, 93]"

definition lit_core_philosophy :: pystr where \<comment> \<open>line 133\<close>
  "lit_core_philosophy =
     [10, 91, 1601, 1604, 1587, 1601, 1607, 32, 1575, 1589, 1604, 1740, 93]"

definition lit_dialogue_style :: pystr where \<comment> \<open>line 136\<close>
  "lit_dialogue_style =
     [10, 91, 1587, 1576, 1705, 32, 1711, 1601, 1578, 1575, 1585, 1740, 93]"

definition lit_forbidden_lines :: pystr where \<comment> \<open>line 140\<close>
  "lit_forbidden_lines =
     [10, 91, 1580, 1605, 1604, 1575, 1578, 32, 1605, 1605, 1606, 1608, 1593, 32, 1576,
     1585, 1575, 1740, 32]"

definition lit_allowed_modes :: pystr where \<comment> \<open>line 146\<close>
  "lit_allowed_modes =
     [10, 91, 1581, 1575, 1604, 1578, 8204, 1607, 1575, 1740, 32, 1605, 1580, 1575,
     1586, 32, 1583, 1585, 32, 1576, 1575, 1586, 1580, 1608, 1740, 1740, 32, 45, 32,
     1601, 1602, 1591, 32, 1575, 1740, 1606, 32]"

definition lit_modes_count :: pystr where \<comment> \<open>line 146\<close>
  "lit_modes_count =
     [32, 1581, 1575, 1604, 1578, 93, 58]"

definition lit_relationships :: pystr where \<comment> \<open>line 152\<close>
  "lit_relationships =
     [10, 91, 1585, 1608, 1575, 1576, 1591, 32, 1576, 1575, 32, 1583, 1740, 1711, 1585,
     1575, 1606, 93, 58]"

definition lit_bullet :: pystr where \<comment> \<open>lines 154 and 160\<close>
  "lit_bullet =
     [8226, 32]"

definition lit_background :: pystr where \<comment> \<open>line 158\<close>
  "lit_background =
     [10, 91, 1575, 1591, 1604, 1575, 1593, 1575, 1578, 32, 1662, 1587, 8204, 1586,
     1605, 1740, 1606, 1607, 93, 58]"

definition lit_secret_lore :: pystr where \<comment> \<open>line 164\<close>
  "lit_secret_lore =
     [10, 91, 1585, 1575, 1586, 32, 1662, 1606, 1607, 1575, 1606, 32, 45, 32, 1601,
     1602, 1591, 32, 1608, 1602, 1578, 1740, 32, 1575, 1586, 32, 1606, 1592, 1585, 32,
     1575, 1581, 1587, 1575, 1587, 1740, 32, 1588, 1705, 1587, 1578, 1607, 32, 1588,
     1583, 1740, 32, 1576, 1740, 1575, 1606, 32, 1705, 1606, 93]"

definition lit_output_format :: pystr where \<comment> \<open>line 168\<close>
  "lit_output_format =
     [10, 91, 1601, 1585, 1605, 1578, 32, 1582, 1585, 1608, 1580, 1740, 32, 1575, 1604,
     1586, 1575, 1605, 1740, 93]"

definition lit_critical :: pystr where \<comment> \<open>lines 169-170\<close>
  "lit_critical =
     ascii ''CRITICAL: End EVERY response with ONE emotion tag in'' @
     ascii '' brackets.'' @ [10] @ ascii ''Valid emotions: ''"

definition lit_example :: pystr where \<comment> \<open>line 171\<close>
  "lit_example =
     [10] @ ascii ''Example: '' @ [34, 1605, 1606, 46, 46, 46, 32, 1606, 1605, 1740,
     8204, 1583, 1575, 1606, 1605, 32, 1670, 1607, 32, 1576, 1711, 1608, 1740, 1605, 46,
     32, 91]"

definition lit_do_not :: pystr where \<comment> \<open>lines 171-172\<close>
  "lit_do_not =
     [93, 34, 10] @ ascii ''Do NOT use any other emotion tags. Do NOT copy formatting''
     @ ascii '' from this prompt.''"

definition lit_signature :: pystr where \<comment> \<open>line 178\<close>
  "lit_signature =
     [10, 91, 1580, 1605, 1604, 1607, 32, 1575, 1605, 1590, 1575, 93, 58, 32, 34]"

text \<open>\<open>sep.join(parts)\<close>.\<close>

definition str_join :: "pystr \<Rightarrow> pystr list \<Rightarrow> pystr" where
  "str_join sep parts =
     (case parts of [] \<Rightarrow> [] | p # ps \<Rightarrow> p @ concat (map (\<lambda>q. sep @ q) ps))"

text \<open>
  The entries appended to \<open>prompt_parts\<close>, in the order of the numbered comments of the
  source. Parts 1 and 2: the role text, the rule set and the narrative.
\<close>

definition role_parts :: "core_rules \<Rightarrow> pystr list" where
  "role_parts cr =
     [lit_system_role, lit_role_text, lit_game_rules,
      opt_get (non_breakable_ruleset cr) [],
      [10] @ opt_get (core_narrative cr) []]"

text \<open>Part 2.5: the interrogation context, when that object is not empty.\<close>

definition interrogation_parts :: "core_rules \<Rightarrow> pystr list" where
  "interrogation_parts cr =
     (let interrogation = opt_get (interrogation_context cr) [] in
      if interrogation \<noteq> [] then
        [lit_interrogation,
         lit_detective @ dict_get interrogation (ascii ''detective_name'') lit_detective_default,
         lit_location @ dict_get interrogation (ascii ''location'') lit_location_default,
         lit_facing @ dict_get interrogation (ascii ''detective_name'') [] @ lit_seated,
         lit_other_suspects,
         lit_six_suspects @ dict_get interrogation (ascii ''suspects_list'') []]
      else [])"

text \<open>Part 3: the forbidden and the allowed behaviours.\<close>

definition behavior_parts :: "core_rules \<Rightarrow> pystr list" where
  "behavior_parts cr =
     [lit_forbidden_behaviors]
     @ map (\<lambda>behavior. ascii ''- '' @ behavior) (opt_get (forbidden_behaviors cr) [])
     @ [lit_allowed_behaviors]
     @ map (\<lambda>behavior. ascii ''- '' @ behavior) (opt_get (allowed_behaviors cr) [])"

text \<open>Part 4: the persona fields of the character.\<close>

definition persona_parts :: "character \<Rightarrow> pystr list" where
  "persona_parts char =
     [lit_your_character @ name char @ ascii '' ('' @ role char @ ascii '')]'',
      lit_identity_core, opt_get (identity_core char) [],
      lit_psychological_shadow, opt_get (psychological_shadow char) [],
      lit_inner_conflict, opt_get (inner_conflict char) [],
      lit_identity_lens, opt_get (identity_lens char) [],
      lit_core_philosophy, opt_get (core_philosophy char) [],
      lit_dialogue_style, opt_get (dialogue_style char) []]"

text \<open>Part 5: the forbidden lines of the character.\<close>

definition forbidden_line_parts :: "character \<Rightarrow> pystr list" where
  "forbidden_line_parts char =
     [lit_forbidden_lines @ name char @ ascii '']:'']
     @ map (\<lambda>line. ascii ''- '' @ line) (opt_get (forbidden_lines char) [])"

text \<open>Part 6: the interview modes, numbered from 1 (\<open>enumerate(interview_modes, 1)\<close>).\<close>

definition interview_mode_parts :: "character \<Rightarrow> pystr list" where
  "interview_mode_parts char =
     (let modes = opt_get (interview_modes char) [] in
      [lit_allowed_modes @ str_nat (length modes) @ lit_modes_count]
      @ map (\<lambda>(i, mode). str_nat i @ ascii ''. '' @ mode) (enumerate 1 modes))"

text \<open>
  Parts 7 to 9: relationships, sub-narratives and secret lore, each only when the field
  is present and not empty.
\<close>

definition context_parts :: "character \<Rightarrow> pystr list" where
  "context_parts char =
     (if opt_get (relationships char) [] \<noteq> [] then
        [lit_relationships]
        @ map (\<lambda>(person, relationship). lit_bullet @ person @ ascii '': '' @ relationship)
              (opt_get (relationships char) [])
      else [])
     @ (if opt_get (sub_narratives char) [] \<noteq> [] then
          [lit_background]
          @ map (\<lambda>narrative. lit_bullet @ narrative) (opt_get (sub_narratives char) [])
        else [])
     @ (if opt_get (secret_lore char) [] \<noteq> [] then
          [lit_secret_lore, opt_get (secret_lore char) []]
        else [])"

text \<open>Part 10: the output format, which lists the interview modes in brackets.\<close>

definition output_format_parts :: "character \<Rightarrow> pystr list" where
  "output_format_parts char =
     (let modes = opt_get (interview_modes char) [] in
      [lit_output_format,
       lit_critical @ str_join (ascii '', '') (map (\<lambda>mode. [91] @ mode @ [93]) modes)
       @ lit_example @ (case modes of [] \<Rightarrow> ascii ''default'' | mode # _ \<Rightarrow> mode)
       @ lit_do_not])"

text \<open>Parts 11 and 12: the final purpose and the signature line.\<close>

definition closing_parts :: "core_rules \<Rightarrow> character \<Rightarrow> pystr list" where
  "closing_parts cr char =
     [[10] @ opt_get (final_purpose cr) [],
      lit_signature @ opt_get (signature_line char) [] @ [34]]"

definition prompt_parts :: "core_rules \<Rightarrow> character \<Rightarrow> pystr list" where
  "prompt_parts cr char =
     role_parts cr @ interrogation_parts cr @ behavior_parts cr @ persona_parts char
     @ forbidden_line_parts char @ interview_mode_parts char @ context_parts char
     @ output_format_parts char @ closing_parts cr char"

text \<open>
  \<open>get_character_system_prompt\<close>: \<open>ValueError\<close> for a key that is not in the table,
  otherwise the parts joined by newlines. The method assigns to no attribute of the
  database, so the database is an argument only.
\<close>

definition get_character_system_prompt :: "CharacterDatabase \<Rightarrow> int \<Rightarrow> exn + pystr" where
  "get_character_system_prompt db suspect_id =
     (let char_key = str_int suspect_id in
      case map_of (characters db) char_key of
        None \<Rightarrow> Inl (ValueError (ascii ''Invalid suspect_id: '' @ str_int suspect_id))
      | Some char \<Rightarrow> Inr (str_join [10] (prompt_parts (rules db) char)))"

section \<open>The regular expressions of the emotion parser\<close>

text \<open>
  The fragment of Python's \<open>re\<close> that ai\_handler.py uses: a pattern is a sequence of
  items, each a character class, a greedy \<open>*\<close>, \<open>+\<close> or \<open>?\<close> of a character class, a group
  parenthesis, or \<open>$\<close>. Matching is by backtracking, as in \<open>re\<close>: a greedy quantifier
  first takes one more character and gives it back only when the rest of the pattern
  fails.
\<close>

datatype cls = Lit pychar | NotLit pychar | OneOf "pychar list" | Space | Digit

fun in_cls :: "cls \<Rightarrow> pychar \<Rightarrow> bool" where
  "in_cls (Lit a) c = (c = a)"
| "in_cls (NotLit a) c = (c \<noteq> a)"
| "in_cls (OneOf as) c = (c \<in> set as)"
| "in_cls Space c = is_space c"
| "in_cls Digit c = is_decimal c"

datatype item = One cls | Star cls | Plus cls | Opt cls | GroupOpen | GroupClose | Eos

text \<open>
  \<open>match_here p s pos g\<close> matches the pattern \<open>p\<close> at position \<open>pos\<close>, where \<open>s\<close> is the
  text from \<open>pos\<close> on and \<open>g\<close> the span of group 1 so far; it returns the end of the
  match and the span of group 1. \<open>$\<close> matches at the end of the text and before a
  newline that ends the text.
\<close>

fun match_here :: "item list \<Rightarrow> pystr \<Rightarrow> nat \<Rightarrow> nat \<times> nat \<Rightarrow> (nat \<times> nat \<times> nat) option" where
  "match_here [] s pos g = Some (pos, g)"
| "match_here (One c # p) [] pos g = None"
| "match_here (One c # p) (x # xs) pos g =
     (if in_cls c x then match_here p xs (Suc pos) g else None)"
| "match_here (Star c # p) [] pos g = match_here p [] pos g"
| "match_here (Star c # p) (x # xs) pos g =
     (if in_cls c x then
        (case match_here (Star c # p) xs (Suc pos) g of
           Some m \<Rightarrow> Some m
         | None \<Rightarrow> match_here p (x # xs) pos g)
      else match_here p (x # xs) pos g)"
| "match_here (Plus c # p) [] pos g = None"
| "match_here (Plus c # p) (x # xs) pos g =
     (if in_cls c x then match_here (Star c # p) xs (Suc pos) g else None)"
| "match_here (Opt c # p) [] pos g = match_here p [] pos g"
| "match_here (Opt c # p) (x # xs) pos g =
     (if in_cls c x then
        (case match_here p xs (Suc pos) g of
           Some m \<Rightarrow> Some m
         | None \<Rightarrow> match_here p (x # xs) pos g)
      else match_here p (x # xs) pos g)"
| "match_here (GroupOpen # p) s pos g = match_here p s pos (pos, snd g)"
| "match_here (GroupClose # p) s pos g = match_here p s pos (fst g, pos)"
| "match_here (Eos # p) s pos g =
     (if s = [] \<or> s = [10] then match_here p s pos g else None)"

text \<open>A match object: \<open>start()\<close>, \<open>end()\<close> and the span of group 1.\<close>

record rmatch =
  m_start :: nat
  m_end :: nat
  g_start :: nat
  g_end :: nat

text \<open>
  \<open>re.search\<close>: the first position, from the left, at which the pattern matches.
  \<open>search_from p s pos\<close> scans the text \<open>s\<close>, which begins at position \<open>pos\<close>.
\<close>

fun search_from :: "item list \<Rightarrow> pystr \<Rightarrow> nat \<Rightarrow> rmatch option" where
  "search_from p [] pos =
     (case match_here p [] pos (0, 0) of
        Some (e, gs, ge) \<Rightarrow> Some \<lparr>m_start = pos, m_end = e, g_start = gs, g_end = ge\<rparr>
      | None \<Rightarrow> None)"
| "search_from p (x # xs) pos =
     (case match_here p (x # xs) pos (0, 0) of
        Some (e, gs, ge) \<Rightarrow> Some \<lparr>m_start = pos, m_end = e, g_start = gs, g_end = ge\<rparr>
      | None \<Rightarrow> search_from p xs (Suc pos))"

definition re_search :: "item list \<Rightarrow> pystr \<Rightarrow> rmatch option" where
  "re_search p s = search_from p s 0"

text \<open>\<open>match.group(1)\<close> on the text \<open>s\<close>.\<close>

definition group1 :: "pystr \<Rightarrow> rmatch \<Rightarrow> pystr" where
  "group1 s m = take (g_end m - g_start m) (drop (g_start m) s)"

lemma match_here_bounds:
  "match_here p s pos g = Some (e, g') \<Longrightarrow> pos \<le> e \<and> e \<le> pos + length s"
  by (induction p s pos g rule: match_here.induct)
     (fastforce split: if_splits option.splits)+

lemma search_from_bounds:
  "search_from p s pos = Some m \<Longrightarrow>
     pos \<le> m_start m \<and> m_start m \<le> m_end m \<and> m_end m \<le> pos + length s"
proof (induction p s pos rule: search_from.induct)
  case (1 p pos)
  then show ?case
    by (auto split: option.splits dest: match_here_bounds)
next
  case (2 p x xs pos)
  show ?case
  proof (cases "match_here p (x # xs) pos (0, 0)")
    case None
    with 2 show ?thesis by fastforce
  next
    case (Some r)
    obtain e gs ge where r: "r = (e, gs, ge)" by (cases r)
    from match_here_bounds [of p "x # xs" pos "(0, 0)" e "(gs, ge)"] Some r 2(2)
    show ?thesis by auto
  qed
qed

text \<open>
  \<open>re.finditer\<close>: the matches from left to right, each search starting where the
  previous match ended. Every pattern of the program begins with a literal character,
  so none of its matches is empty; the scan is modelled up to the first empty match.
\<close>

function finditer_from :: "item list \<Rightarrow> pystr \<Rightarrow> nat \<Rightarrow> rmatch list" where
  "finditer_from p s pos =
     (case search_from p s pos of
        None \<Rightarrow> []
      | Some m \<Rightarrow>
          if m_start m < m_end m
          then m # finditer_from p (drop (m_end m - pos) s) (m_end m)
          else [m])"
  by pat_completeness auto
termination
proof (relation "measure (\<lambda>(p, s, pos). length s)")
  show "wf (measure (\<lambda>(p, s, pos). length s))" by simp
next
  fix p :: "item list" and s :: pystr and pos :: nat and m :: rmatch
  assume "search_from p s pos = Some m" and "m_start m < m_end m"
  with search_from_bounds [of p s pos m]
  show "((p, drop (m_end m - pos) s, m_end m), (p, s, pos)) \<in> measure (\<lambda>(p, s, pos). length s)"
    by auto
qed

declare finditer_from.simps [simp del]

definition re_finditer :: "item list \<Rightarrow> pystr \<Rightarrow> rmatch list" where
  "re_finditer p s = finditer_from p s 0"

text \<open>\<open>re.sub(p, "", s)\<close>: the text with every match, from left to right, removed.\<close>

function sub_from :: "item list \<Rightarrow> pystr \<Rightarrow> pystr" where
  "sub_from p s =
     (case search_from p s 0 of
        None \<Rightarrow> s
      | Some m \<Rightarrow>
          if m_start m < m_end m
          then take (m_start m) s @ sub_from p (drop (m_end m) s)
          else s)"
  by pat_completeness auto
termination
proof (relation "measure (\<lambda>(p, s). length s)")
  show "wf (measure (\<lambda>(p, s). length s))" by simp
next
  fix p :: "item list" and s :: pystr and m :: rmatch
  assume "search_from p s 0 = Some m" and "m_start m < m_end m"
  with search_from_bounds [of p s 0 m]
  show "((p, drop (m_end m) s), (p, s)) \<in> measure (\<lambda>(p, s). length s)"
    by auto
qed

declare sub_from.simps [simp del]

definition re_sub_empty :: "item list \<Rightarrow> pystr \<Rightarrow> pystr" where
  "re_sub_empty p s = sub_from p s"

section \<open>The emotion parser (ai\_handler.py)\<close>

text \<open>
  The four patterns of \<open>parse_emotion_tag\<close>:
  \<^verbatim>\<open>\{'='[*]\d+\}\<close>, \<^verbatim>\<open>\{["\']=["\'][*]\d+\}\<close>,
  \<^verbatim>\<open>\[([^\]]+)\]\s*["\']?\s*$\<close> and \<^verbatim>\<open>\[([^\]]+)\]\<close>.
  The code points: \<open>{\<close> 123, \<open>}\<close> 125, \<open>'\<close> 39, \<open>"\<close> 34, \<open>=\<close> 61, \<open>*\<close> 42,
  \<open>[\<close> 91, \<open>]\<close> 93.
\<close>

definition pattern_artifact1 :: "item list" where
  "pattern_artifact1 =
     [One (Lit 123), One (Lit 39), One (Lit 61), One (Lit 39), One (OneOf [42]),
      Plus Digit, One (Lit 125)]"

definition pattern_artifact2 :: "item list" where
  "pattern_artifact2 =
     [One (Lit 123), One (OneOf [34, 39]), One (Lit 61), One (OneOf [34, 39]),
      One (OneOf [42]), Plus Digit, One (Lit 125)]"

definition pattern_end :: "item list" where
  "pattern_end =
     [One (Lit 91), GroupOpen, Plus (NotLit 93), GroupClose, One (Lit 93),
      Star Space, Opt (OneOf [34, 39]), Star Space, Eos]"

definition pattern_any :: "item list" where
  "pattern_any = [One (Lit 91), GroupOpen, Plus (NotLit 93), GroupClose, One (Lit 93)]"

text \<open>\<open>get_default_emotion\<close> of game\_state.py.\<close>

definition get_default_emotion :: "int \<Rightarrow> pystr" where
  "get_default_emotion suspect_id =
     dict_get [(1, ascii ''scared''), (2, ascii ''other''), (3, ascii ''happy''),
               (4, ascii ''other''), (5, ascii ''angry''), (6, ascii ''scared'')]
              suspect_id (ascii ''other'')"

text \<open>The first three lines of \<open>parse_emotion_tag\<close>: the artifacts removed, then \<open>strip\<close>.\<close>

definition clean_artifacts :: "pystr \<Rightarrow> pystr" where
  "clean_artifacts response =
     strip (re_sub_empty pattern_artifact2 (re_sub_empty pattern_artifact1 response))"

text \<open>
  The match the parser uses: the search for the pattern at the end, and when that finds
  nothing, the last of all the matches of the bracket pattern.
\<close>

definition find_tag :: "pystr \<Rightarrow> rmatch option" where
  "find_tag response =
     (case re_search pattern_end response of
        Some m \<Rightarrow> Some m
      | None \<Rightarrow>
          (let all_matches = re_finditer pattern_any response in
           if all_matches \<noteq> [] then Some (last all_matches) else None))"

text \<open>
  \<open>parse_emotion_tag\<close> returns the triple (image filename, cleaned response, emotion
  tag). The \<open>print\<close> calls are left out; the second lookup of the mapping on the
  invalid-tag path only feeds a \<open>print\<close>, but it is a call that could raise and is kept.
\<close>

definition parse_emotion_tag :: "CharacterDatabase \<Rightarrow> pystr \<Rightarrow> int \<Rightarrow> exn + (pystr \<times> pystr \<times> pystr)" where
  "parse_emotion_tag db response0 suspect_id =
     (let response = clean_artifacts response0 in
      case find_tag response of
        Some m \<Rightarrow>
          (let emotion_tag = strip (group1 response m);
               cleaned = strip (take (m_start m) response @ drop (m_end m) response)
           in case map_emotion_to_image db suspect_id emotion_tag of
                Inl e \<Rightarrow> Inl e
              | Inr (image_filename, is_valid) \<Rightarrow>
                  if is_valid then Inr (image_filename, cleaned, emotion_tag)
                  else (case get_emotion_mapping db suspect_id of
                          Inl e \<Rightarrow> Inl e
                        | Inr mapping \<Rightarrow> Inr (image_filename, cleaned, emotion_tag)))
      | None \<Rightarrow>
          (let default_emotion_code = get_default_emotion suspect_id in
           case get_emotion_mapping db suspect_id of
             Inl e \<Rightarrow> Inl e
           | Inr mapping \<Rightarrow>
               Inr (dict_get mapping (ascii ''default'') (ascii ''other.jpg''),
                    response, ascii ''default'')))"

section \<open>The chat engine (ai\_handler.py)\<close>

text \<open>
  \<open>clean_response\<close> calls \<open>parse_emotion_tag(response)\<close>. A call binds its arguments to
  the parameters before the body runs; \<open>parse_emotion_tag\<close> has the two required
  parameters \<open>response\<close> and \<open>suspect_id\<close>, and a call that leaves one of them without
  an argument (\<open>None\<close> below) raises \<open>TypeError\<close>.
\<close>

definition call_parse_emotion_tag ::
    "CharacterDatabase \<Rightarrow> pystr option \<Rightarrow> int option \<Rightarrow> exn + (pystr \<times> pystr \<times> pystr)" where
  "call_parse_emotion_tag db response suspect_id =
     (case (response, suspect_id) of
        (Some r, Some sid) \<Rightarrow> parse_emotion_tag db r sid
      | (Some r, None) \<Rightarrow>
          Inl (TypeError (ascii ''parse_emotion_tag() missing 1 required positional argument: ''
                          @ [39] @ ascii ''suspect_id'' @ [39]))
      | (None, Some sid) \<Rightarrow>
          Inl (TypeError (ascii ''parse_emotion_tag() missing 1 required positional argument: ''
                          @ [39] @ ascii ''response'' @ [39]))
      | (None, None) \<Rightarrow>
          Inl (TypeError (ascii ''parse_emotion_tag() missing 2 required positional arguments: ''
                          @ [39] @ ascii ''response'' @ [39] @ ascii '' and ''
                          @ [39] @ ascii ''suspect_id'' @ [39])))"

text \<open>The assignment \<open>_, cleaned = t\<close> of a tuple \<open>t\<close> to two targets.\<close>

definition unpack2 :: "pystr list \<Rightarrow> exn + (pystr \<times> pystr)" where
  "unpack2 t =
     (case t of
        [a, b] \<Rightarrow> Inr (a, b)
      | a # b # c # rest \<Rightarrow> Inl (ValueError (ascii ''too many values to unpack (expected 2)''))
      | short \<Rightarrow>
          Inl (ValueError (ascii ''not enough values to unpack (expected 2, got ''
                           @ str_nat (length short) @ ascii '')'')))"

definition clean_response :: "CharacterDatabase \<Rightarrow> pystr \<Rightarrow> exn + pystr" where
  "clean_response db response =
     (case call_parse_emotion_tag db (Some response) None of
        Inl e \<Rightarrow> Inl e
      | Inr (image_filename, cleaned_response, emotion_tag) \<Rightarrow>
          (case unpack2 [image_filename, cleaned_response, emotion_tag] of
             Inl e \<Rightarrow> Inl e
           | Inr (u, cleaned) \<Rightarrow> Inr cleaned))"

text \<open>
  \<open>type(e).__name__\<close> and \<open>str(e)\<close> of an exception; the text an exception carries is
  its \<open>str(e)\<close>.
\<close>

fun exn_name :: "exn \<Rightarrow> pystr" where
  "exn_name (ValueError m) = ascii ''ValueError''"
| "exn_name (KeyError m) = ascii ''KeyError''"
| "exn_name (TypeError m) = ascii ''TypeError''"
| "exn_name (AttributeError m) = ascii ''AttributeError''"
| "exn_name (LibError n m) = n"

fun exn_str :: "exn \<Rightarrow> pystr" where
  "exn_str (ValueError m) = m"
| "exn_str (KeyError m) = m"
| "exn_str (TypeError m) = m"
| "exn_str (AttributeError m) = m"
| "exn_str (LibError n m) = m"

text \<open>
  A chat message \<open>{"role": ..., "content": ...}\<close>.
\<close>

record message =
  msg_role :: pystr
  msg_content :: pystr

text \<open>
  The two client libraries are outside the repository; the engine is verified for every
  behaviour of them. A client object (\<open>'c\<close>, the OpenAI client) and a chat engine (\<open>'e\<close>,
  a \<open>SimpleChatEngine\<close> with its own memory buffer) are states that a call reads and
  changes; a call returns a text or raises. A streamed call yields its tokens and then
  ends, or raises after them.
  \<^item> \<open>completions_create c messages\<close>: \<open>chat.completions.create\<close>, giving the content of
    the first choice;
  \<^item> \<open>completions_stream c messages\<close>: the same with \<open>stream=True\<close>, giving the non-empty
    contents of the chunks;
  \<^item> \<open>from_defaults system_prompt\<close>: \<open>SimpleChatEngine.from_defaults\<close> with a new memory;
  \<^item> \<open>chat e question\<close> and \<open>stream_chat e question\<close>: the two calls of a chat engine.
\<close>

record ('c, 'e) backend =
  completions_create :: "'c \<Rightarrow> message list \<Rightarrow> (exn + pystr) \<times> 'c"
  completions_stream :: "'c \<Rightarrow> message list \<Rightarrow> (pystr list \<times> exn option) \<times> 'c"
  from_defaults :: "pystr \<Rightarrow> 'e"
  chat :: "'e \<Rightarrow> pystr \<Rightarrow> (exn + pystr) \<times> 'e"
  stream_chat :: "'e \<Rightarrow> pystr \<Rightarrow> (pystr list \<times> exn option) \<times> 'e"

text \<open>
  The attributes of \<open>AIDetectiveEngine\<close> that the response path uses, and two logs of
  what the engine does to the outside: \<open>slept\<close>, the arguments of the \<open>time.sleep\<close>
  calls in seconds (the back-off values 1.0, 2.0, ... are whole numbers), and
  \<open>streamed\<close>, the tokens passed to \<open>stream_callback\<close>. The callback is taken not to
  raise. The \<open>print\<close> calls and the debug file of the prompt are left out.
\<close>

record ('c, 'e) AIDetectiveEngine =
  use_api :: bool
  openai_client :: "'c option"
  api_chat_histories :: "int \<rightharpoonup> message list"
  chat_engines :: "int \<rightharpoonup> 'e"
  slept :: "nat list"
  streamed :: "pystr list"

text \<open>The engine as \<open>__init__\<close> leaves it: no history and no chat engine.\<close>

definition new_engine :: "bool \<Rightarrow> 'c option \<Rightarrow> ('c, 'e) AIDetectiveEngine" where
  "new_engine api client =
     \<lparr>use_api = api, openai_client = client, api_chat_histories = Map.empty,
      chat_engines = Map.empty, slept = [], streamed = []\<rparr>"

definition openai_chat ::
    "('c, 'e) backend \<Rightarrow> ('c, 'e) AIDetectiveEngine \<Rightarrow> pystr \<Rightarrow> pystr \<Rightarrow> message list \<Rightarrow> bool
       \<Rightarrow> (exn + pystr) \<times> ('c, 'e) AIDetectiveEngine" where
  "openai_chat B self system_prompt user_message chat_history stream_callback =
     (let messages =
            [\<lparr>msg_role = ascii ''system'', msg_content = system_prompt\<rparr>]
            @ chat_history
            @ [\<lparr>msg_role = ascii ''user'', msg_content = user_message\<rparr>]
      in case openai_client self of
           None \<Rightarrow> (Inl (AttributeError (ascii ''NoneType object has no attribute chat'')), self)
         | Some client \<Rightarrow>
             if stream_callback then
               (case completions_stream B client messages of
                  ((tokens, err), client') \<Rightarrow>
                    (case err of None \<Rightarrow> Inr (concat tokens) | Some e \<Rightarrow> Inl e,
                     self\<lparr>openai_client := Some client', streamed := streamed self @ tokens\<rparr>))
             else
               (case completions_create B client messages of
                  (r, client') \<Rightarrow> (r, self\<lparr>openai_client := Some client'\<rparr>)))"

text \<open>\<open>_get_suspect_persona\<close> and \<open>_create_system_prompt\<close>.\<close>

definition get_suspect_persona :: "CharacterDatabase \<Rightarrow> int \<Rightarrow> pystr" where
  "get_suspect_persona db suspect_id =
     (case get_character_system_prompt db suspect_id of
        Inr prompt \<Rightarrow> prompt
      | Inl e \<Rightarrow> ascii ''You are a suspect in a murder investigation. Answer carefully.'')"

definition create_system_prompt :: "CharacterDatabase \<Rightarrow> int \<Rightarrow> pystr" where
  "create_system_prompt db suspect_id = get_suspect_persona db suspect_id"

text \<open>
  \<open>_get_suspect_response_api\<close>. The history list of the suspect is created empty on
  first use; after a reply the question and the reply are appended to it, and a list
  of more than 20 messages is replaced by its last 20.
\<close>

definition get_suspect_response_api ::
    "('c, 'e) backend \<Rightarrow> CharacterDatabase \<Rightarrow> ('c, 'e) AIDetectiveEngine \<Rightarrow> int \<Rightarrow> pystr
       \<Rightarrow> bool \<Rightarrow> bool \<Rightarrow> (exn + pystr) \<times> ('c, 'e) AIDetectiveEngine" where
  "get_suspect_response_api B db self suspect_id player_question streaming stream_callback =
     (let system_prompt = create_system_prompt db suspect_id;
          chat_history = (case api_chat_histories self suspect_id of None \<Rightarrow> [] | Some h \<Rightarrow> h);
          self1 = self\<lparr>api_chat_histories := (api_chat_histories self)(suspect_id \<mapsto> chat_history)\<rparr>
      in case openai_chat B self1 system_prompt player_question chat_history
                (streaming \<and> stream_callback) of
           (Inl e, self2) \<Rightarrow> (Inl e, self2)
         | (Inr response_text, self2) \<Rightarrow>
             (let appended = chat_history
                    @ [\<lparr>msg_role = ascii ''user'', msg_content = player_question\<rparr>,
                       \<lparr>msg_role = ascii ''assistant'', msg_content = response_text\<rparr>];
                  kept = (if length appended > 20
                          then drop (length appended - 20) appended else appended)
              in (Inr response_text,
                  self2\<lparr>api_chat_histories := (api_chat_histories self2)(suspect_id \<mapsto> kept)\<rparr>)))"

text \<open>
  The two retry loops of \<open>_get_suspect_response_ollama\<close>,
  \<open>for attempt in range(max_retries)\<close> with \<open>max_retries = 3\<close> and \<open>backoff = 1.0\<close>. The
  loop ends at the first attempt that succeeds; a failed attempt that is not the last
  sleeps \<open>backoff\<close> seconds and doubles it; the last failed attempt raises again. The
  result carries the chat engine after the attempts, the sleeps and, for the streaming
  loop, the tokens handed to the callback. \<open>Inr None\<close> is the loop ending with no
  attempt made, where \<open>response\<close> is still \<open>None\<close>.
\<close>

definition max_retries :: nat where
  "max_retries = 3"

function chat_retry ::
    "('c, 'e) backend \<Rightarrow> pystr \<Rightarrow> nat \<Rightarrow> nat \<Rightarrow> 'e \<Rightarrow> nat list
       \<Rightarrow> (exn + pystr option) \<times> 'e \<times> nat list" where
  "chat_retry B question attempt backoff eng sleeps =
     (if attempt < max_retries then
        (case chat B eng question of
           (Inr response, eng') \<Rightarrow> (Inr (Some response), eng', sleeps)
         | (Inl e, eng') \<Rightarrow>
             if attempt < max_retries - 1
             then chat_retry B question (attempt + 1) (backoff * 2) eng' (sleeps @ [backoff])
             else (Inl e, eng', sleeps))
      else (Inr None, eng, sleeps))"
  by pat_completeness auto
termination
  by (relation "measure (\<lambda>(B, question, attempt, backoff, eng, sleeps). max_retries - attempt)")
     auto

declare chat_retry.simps [simp del]

function stream_retry ::
    "('c, 'e) backend \<Rightarrow> pystr \<Rightarrow> nat \<Rightarrow> nat \<Rightarrow> pystr \<Rightarrow> 'e \<Rightarrow> nat list \<Rightarrow> pystr list
       \<Rightarrow> (exn + pystr) \<times> 'e \<times> nat list \<times> pystr list" where
  "stream_retry B question attempt backoff full_response eng sleeps sent =
     (if attempt < max_retries then
        (case stream_chat B eng question of
           ((tokens, None), eng') \<Rightarrow> (Inr (concat tokens), eng', sleeps, sent @ tokens)
         | ((tokens, Some e), eng') \<Rightarrow>
             if attempt < max_retries - 1
             then stream_retry B question (attempt + 1) (backoff * 2) (concat tokens) eng'
                    (sleeps @ [backoff]) (sent @ tokens)
             else (Inl e, eng', sleeps, sent @ tokens))
      else (Inr full_response, eng, sleeps, sent))"
  by pat_completeness auto
termination
  by (relation "measure (\<lambda>(B, question, attempt, backoff, full_response, eng, sleeps, sent).
                            max_retries - attempt)")
     auto

declare stream_retry.simps [simp del]

text \<open>\<open>str(response)\<close> for the response of \<open>chat\<close>, or for \<open>None\<close>.\<close>

definition str_response :: "pystr option \<Rightarrow> pystr" where
  "str_response response = (case response of None \<Rightarrow> ascii ''None'' | Some r \<Rightarrow> r)"

text \<open>
  \<open>_get_suspect_response_ollama\<close>. The chat engine of the suspect is built from the
  system prompt on first use and kept in \<open>chat_engines\<close>.
\<close>

definition get_suspect_response_ollama ::
    "('c, 'e) backend \<Rightarrow> CharacterDatabase \<Rightarrow> ('c, 'e) AIDetectiveEngine \<Rightarrow> int \<Rightarrow> pystr
       \<Rightarrow> bool \<Rightarrow> bool \<Rightarrow> (exn + pystr) \<times> ('c, 'e) AIDetectiveEngine" where
  "get_suspect_response_ollama B db self suspect_id player_question streaming stream_callback =
     (let chat_engine =
            (case chat_engines self suspect_id of
               None \<Rightarrow> from_defaults B (create_system_prompt db suspect_id)
             | Some eng \<Rightarrow> eng)
      in if streaming \<and> stream_callback then
           (case stream_retry B player_question 0 1 [] chat_engine [] [] of
              (r, eng', sleeps, sent) \<Rightarrow>
                (r, self\<lparr>chat_engines := (chat_engines self)(suspect_id \<mapsto> eng'),
                         slept := slept self @ sleeps,
                         streamed := streamed self @ sent\<rparr>))
         else
           (case chat_retry B player_question 0 1 chat_engine [] of
              (r, eng', sleeps) \<Rightarrow>
                (case r of Inl e \<Rightarrow> Inl e | Inr response \<Rightarrow> Inr (str_response response),
                 self\<lparr>chat_engines := (chat_engines self)(suspect_id \<mapsto> eng'),
                      slept := slept self @ sleeps\<rparr>)))"

text \<open>
  \<open>get_suspect_response\<close>: the \<open>except Exception\<close> clause turns every failure of the two
  paths into a reply text that names the class of the exception and the first 100
  characters of its message.
\<close>

definition lit_nervous :: pystr where \<comment> \<open>line 546\<close>
  "lit_nervous =
     [42, 1588, 1582, 1589, 1740, 1578, 32, 1593, 1589, 1576, 1740, 32, 1576, 1607, 32,
      1606, 1592, 1585, 32, 1605, 1740, 8204, 1585, 1587, 1583, 42, 32, 1605, 1606, 46,
      46, 46, 32, 1605, 1606, 46, 46, 46, 32, 40]"

definition fallback_response :: "exn \<Rightarrow> pystr" where
  "fallback_response e =
     lit_nervous @ exn_name e @ ascii '': '' @ take 100 (exn_str e) @ ascii '')''"

definition get_suspect_response ::
    "('c, 'e) backend \<Rightarrow> CharacterDatabase \<Rightarrow> ('c, 'e) AIDetectiveEngine \<Rightarrow> int \<Rightarrow> pystr
       \<Rightarrow> bool \<Rightarrow> bool \<Rightarrow> (exn + pystr) \<times> ('c, 'e) AIDetectiveEngine" where
  "get_suspect_response B db self suspect_id player_question streaming stream_callback =
     (case (if use_api self \<and> openai_client self \<noteq> None
            then get_suspect_response_api B db self suspect_id player_question
                   streaming stream_callback
            else get_suspect_response_ollama B db self suspect_id player_question
                   streaming stream_callback) of
        (Inr response_text, self') \<Rightarrow> (Inr response_text, self')
      | (Inl e, self') \<Rightarrow> (Inr (fallback_response e), self'))"


definition reset_all_chats :: "('c, 'e) AIDetectiveEngine \<Rightarrow> ('c, 'e) AIDetectiveEngine" where
  "reset_all_chats self = self\<lparr>chat_engines := Map.empty, api_chat_histories := Map.empty\<rparr>"

text \<open>
  A run of the engine: the questions asked one after the other, each
  (suspect, question, streaming, callback given).
\<close>

fun ask_all ::
    "('c, 'e) backend \<Rightarrow> CharacterDatabase \<Rightarrow> ('c, 'e) AIDetectiveEngine
       \<Rightarrow> (int \<times> pystr \<times> bool \<times> bool) list \<Rightarrow> ('c, 'e) AIDetectiveEngine" where
  "ask_all B db self [] = self"
| "ask_all B db self ((suspect_id, question, streaming, callback) # rest) =
     ask_all B db (snd (get_suspect_response B db self suspect_id question streaming callback)) rest"

section \<open>The game state (game\_state.py)\<close>

text \<open>
  The attributes of a \<open>GameState\<close> are assigned by its methods and by \<open>load\<close>, which
  stores whatever the save file holds. Their values are therefore the Python values that
  JSON text gives: \<open>None\<close>, booleans, integers, strings, lists and dicts with string keys.
  Numbers with a fraction or an exponent, which no method of the game writes, are left
  out.
\<close>

datatype pyval =
    PNone
  | PBool bool
  | PInt int
  | PStr pystr
  | PList "pyval list"
  | PDict "(pystr, pyval) dict"

text \<open>The operator \<open>==\<close>: \<open>True == 1\<close>, lists by position, dicts by key.\<close>

fun py_eq :: "pyval \<Rightarrow> pyval \<Rightarrow> bool" where
  "py_eq PNone PNone = True"
| "py_eq (PBool a) (PBool b) = (a = b)"
| "py_eq (PBool a) (PInt n) = ((if a then 1 else 0) = n)"
| "py_eq (PInt n) (PBool a) = (n = (if a then 1 else 0))"
| "py_eq (PInt m) (PInt n) = (m = n)"
| "py_eq (PStr s) (PStr t) = (s = t)"
| "py_eq (PList xs) (PList ys) = list_all2 py_eq xs ys"
| "py_eq (PDict xs) (PDict ys) =
     (length xs = length ys \<and>
      list_all (\<lambda>(k, v). list_ex (\<lambda>(k', w). k = k' \<and> py_eq v w) ys) xs)"
| "py_eq _ _ = False"

fun type_name :: "pyval \<Rightarrow> pystr" where
  "type_name PNone = ascii ''NoneType''"
| "type_name (PBool b) = ascii ''bool''"
| "type_name (PInt n) = ascii ''int''"
| "type_name (PStr s) = ascii ''str''"
| "type_name (PList xs) = ascii ''list''"
| "type_name (PDict d) = ascii ''dict''"

definition quoted :: "pystr \<Rightarrow> pystr" where
  "quoted s = [39] @ s @ [39]"


text \<open>The items a \<open>for\<close> loop over the value visits.\<close>

fun py_iter :: "pyval \<Rightarrow> exn + pyval list" where
  "py_iter (PList xs) = Inr xs"
| "py_iter (PStr s) = Inr (map (\<lambda>c. PStr [c]) s)"
| "py_iter (PDict d) = Inr (map (\<lambda>(k, v). PStr k) d)"
| "py_iter v = Inl (TypeError (quoted (type_name v) @ ascii '' object is not iterable''))"

text \<open>\<open>page[key]\<close> for a string key.\<close>

fun py_getitem :: "pyval \<Rightarrow> pystr \<Rightarrow> exn + pyval" where
  "py_getitem (PDict d) key =
     (case map_of d key of Some v \<Rightarrow> Inr v | None \<Rightarrow> Inl (KeyError (quoted key)))"
| "py_getitem (PList xs) key =
     Inl (TypeError (ascii ''list indices must be integers or slices, not str''))"
| "py_getitem (PStr s) key =
     Inl (TypeError (ascii ''string indices must be integers, not '' @ quoted (ascii ''str'')))"
| "py_getitem v key =
     Inl (TypeError (quoted (type_name v) @ ascii '' object is not subscriptable''))"

text \<open>\<open>d[key] = value\<close> on the items of a dict: a present key keeps its place.\<close>

fun dict_set :: "('k, 'v) dict \<Rightarrow> 'k \<Rightarrow> 'v \<Rightarrow> ('k, 'v) dict" where
  "dict_set [] key v = [(key, v)]"
| "dict_set ((k, w) # d) key v = (if k = key then (k, v) # d else (k, w) # dict_set d key v)"

record GameState =
  current_day :: pyval
  notebook_pages :: pyval
  game_ended :: pyval
  win_state :: pyval
  intro_shown :: pyval
  case_files_text :: pyval
  save_file :: pystr

text \<open>A blank page \<open>{"day": day, "content": ""}\<close>.\<close>

definition blank_page :: "pyval \<Rightarrow> pyval" where
  "blank_page day = PDict [(ascii ''day'', day), (ascii ''content'', PStr [])]"




text \<open>
  The loop of \<open>get_current_page\<close>: the first page whose day equals the current day or is
  \<open>"Final"\<close>, with its position in the list.
\<close>

fun find_current :: "pyval list \<Rightarrow> pyval \<Rightarrow> nat \<Rightarrow> exn + (nat \<times> pyval) option" where
  "find_current [] day i = Inr None"
| "find_current (page # rest) day i =
     (case py_getitem page (ascii ''day'') of
        Inl e \<Rightarrow> Inl e
      | Inr d \<Rightarrow>
          if py_eq d day \<or> py_eq d (PStr (ascii ''Final'')) then Inr (Some (i, page))
          else find_current rest day (Suc i))"

text \<open>
  \<open>get_current_page\<close>. When the loop finds no page, the last page of a list that is not
  empty is returned, and otherwise a new page for day 1. (A string or a dict that is
  not empty makes the loop raise, so the fallback meets them only empty.) The result
  names the page returned: \<open>Some i\<close> for the page at position \<open>i\<close> of the list, \<open>None\<close>
  for the new page.
\<close>

definition current_page_ref :: "GameState \<Rightarrow> exn + (nat option \<times> pyval)" where
  "current_page_ref self =
     (case py_iter (notebook_pages self) of
        Inl e \<Rightarrow> Inl e
      | Inr pages \<Rightarrow>
          (case find_current pages (current_day self) 0 of
             Inl e \<Rightarrow> Inl e
           | Inr (Some (i, page)) \<Rightarrow> Inr (Some i, page)
           | Inr None \<Rightarrow>
               (case notebook_pages self of
                  PList (p # ps) \<Rightarrow> Inr (Some (length ps), last (p # ps))
                | other \<Rightarrow> Inr (None, blank_page (PInt 1)))))"

definition get_current_page :: "GameState \<Rightarrow> exn + pyval" where
  "get_current_page self =
     (case current_page_ref self of Inl e \<Rightarrow> Inl e | Inr (r, page) \<Rightarrow> Inr page)"

text \<open>
  \<open>update_current_page\<close> assigns to the page that \<open>get_current_page\<close> returns, which is
  the dict inside the list (or a new dict that is dropped).
\<close>

definition update_current_page :: "GameState \<Rightarrow> pystr \<Rightarrow> exn option \<times> GameState" where
  "update_current_page self content =
     (case current_page_ref self of
        Inl e \<Rightarrow> (Some e, self)
      | Inr (None, page) \<Rightarrow> (None, self)
      | Inr (Some i, page) \<Rightarrow>
          (case (notebook_pages self, page) of
             (PList pages, PDict d) \<Rightarrow>
               (None, self\<lparr>notebook_pages :=
                         PList (pages[i := PDict (dict_set d (ascii ''content'') (PStr content))])\<rparr>)
           | other \<Rightarrow>
               (Some (TypeError (quoted (type_name page)
                                 @ ascii '' object does not support item assignment'')), self)))"



text \<open>
  The save file. \<open>json.dump\<close> writes the JSON text of a value and \<open>json.load\<close> reads the
  value back from such a text; the two are library functions, and a file is modelled by
  what \<open>json.load\<close> makes of it: \<open>JsonFile v\<close> is a file whose text is JSON for the value
  \<open>v\<close>, \<open>OtherFile\<close> a file that cannot be opened, read or parsed. A file system maps
  the paths that exist to their files.
\<close>

datatype disk_file = JsonFile pyval | OtherFile

type_synonym filesystem = "pystr \<rightharpoonup> disk_file"

text \<open>
  What the environment does with the write of \<open>save\<close>: it succeeds; or \<open>open\<close> fails and
  nothing changes; or the write fails on the way and leaves a broken file. \<open>save\<close>
  catches the exception in the last two cases.
\<close>

datatype write_outcome = Written | OpenFailed | WriteFailed

definition save_data :: "GameState \<Rightarrow> pyval" where
  "save_data self =
     PDict [(ascii ''current_day'', current_day self),
            (ascii ''notebook_pages'', notebook_pages self),
            (ascii ''game_ended'', game_ended self),
            (ascii ''win_state'', win_state self),
            (ascii ''intro_shown'', intro_shown self),
            (ascii ''case_files_text'', case_files_text self)]"

definition save :: "GameState \<Rightarrow> write_outcome \<Rightarrow> filesystem \<Rightarrow> filesystem" where
  "save self outcome fs =
     (let data = save_data self in
      case outcome of
        Written \<Rightarrow> fs(save_file self \<mapsto> JsonFile data)
      | OpenFailed \<Rightarrow> fs
      | WriteFailed \<Rightarrow> fs(save_file self \<mapsto> OtherFile))"

text \<open>
  \<open>load\<close>. A value that is not a dict has no \<open>get\<close>; the \<open>AttributeError\<close> of the first
  \<open>data.get\<close> is caught like every other exception, before any attribute is assigned.
\<close>

definition load :: "GameState \<Rightarrow> filesystem \<Rightarrow> bool \<times> GameState" where
  "load self fs =
     (case fs (save_file self) of
        None \<Rightarrow> (False, self)
      | Some OtherFile \<Rightarrow> (False, self)
      | Some (JsonFile (PDict data)) \<Rightarrow>
          (True,
           self\<lparr>current_day := dict_get data (ascii ''current_day'') (PInt 1),
                notebook_pages := dict_get data (ascii ''notebook_pages'')
                                    (PList [blank_page (PInt 1)]),
                game_ended := dict_get data (ascii ''game_ended'') (PBool False),
                win_state := dict_get data (ascii ''win_state'') (PStr []),
                intro_shown := dict_get data (ascii ''intro_shown'') (PBool False),
                case_files_text := dict_get data (ascii ''case_files_text'') (PStr [])\<rparr>)
      | Some (JsonFile other) \<Rightarrow> (False, self))"

section \<open>Notions used to state the engine's properties\<close>

text \<open>
  \<open>history_bounded\<close>: every stored history of the API mode has at most 20 messages.
\<close>

definition history_bounded :: "('c, 'e) AIDetectiveEngine \<Rightarrow> bool" where
  "history_bounded self =
     (\<forall>suspect_id h. api_chat_histories self suspect_id = Some h \<longrightarrow> length h \<le> 20)"

section \<open>Notions used to state the properties of the prompt and the game state\<close>

text \<open>\<open>on_new_lines\<close>: the parts, each after a newline.\<close>

definition on_new_lines :: "pystr list \<Rightarrow> pystr" where
  "on_new_lines parts = concat (map (\<lambda>part. [10] @ part) parts)"

text \<open>
  \<open>page_day\<close> is the \<open>"day"\<close> entry of a page, \<open>is_day\<close> a day as the methods write it (an
  integer or \<open>"Final"\<close>), \<open>dated_page\<close> a page with such a day. \<open>game_inv\<close> is the
  invariant of the game state: the pages are a list that is not empty, all pages are
  dated, a page has the current day, and a \<open>"Final"\<close> page exists only when the current
  day is \<open>"Final"\<close>.
\<close>

definition page_day :: "pyval \<Rightarrow> pyval option" where
  "page_day page = (case page of PDict d \<Rightarrow> map_of d (ascii ''day'') | other \<Rightarrow> None)"

fun is_day :: "pyval \<Rightarrow> bool" where
  "is_day (PInt n) = True"
| "is_day (PStr s) = (s = ascii ''Final'')"
| "is_day v = False"

definition dated_page :: "pyval \<Rightarrow> bool" where
  "dated_page page = (case page_day page of Some d \<Rightarrow> is_day d | None \<Rightarrow> False)"

definition game_inv :: "GameState \<Rightarrow> bool" where
  "game_inv self =
     (case notebook_pages self of
        PList pages \<Rightarrow>
          pages \<noteq> [] \<and> is_day (current_day self) \<and> list_all dated_page pages \<and>
          list_ex (\<lambda>p. page_day p = Some (current_day self)) pages \<and>
          (list_ex (\<lambda>p. page_day p = Some (PStr (ascii ''Final''))) pages
             \<longrightarrow> current_day self = PStr (ascii ''Final''))
      | other \<Rightarrow> False)"

section \<open>Notions used to state the parser's properties\<close>

text \<open>
  These are not functions of the program. They say, in the words of the specification,
  what a bracketed tag is, so that the regular expressions can be compared with them.
  \<open>[\<close> is code point 91 and \<open>]\<close> is 93.

  \<open>has_tag s\<close>: the text contains a bracketed tag, that is an opening bracket, one or
  more characters other than \<open>]\<close>, and a closing bracket (lemma \<open>has_tag_iff\<close> below
  gives the same as a decomposition of the text).
\<close>

fun tag_follows :: "pystr \<Rightarrow> bool" where
  "tag_follows [] = False"
| "tag_follows (y # ys) = (y \<noteq> 93 \<and> 93 \<in> set ys)"

fun has_tag :: "pystr \<Rightarrow> bool" where
  "has_tag [] = False"
| "has_tag (x # xs) = ((x = 91 \<and> tag_follows xs) \<or> has_tag xs)"

text \<open>\<open>open_bracket s\<close>: some \<open>[\<close> of the text has no \<open>]\<close> after it.\<close>

fun open_bracket :: "pystr \<Rightarrow> bool" where
  "open_bracket [] = False"
| "open_bracket (x # xs) = ((x = 91 \<and> 93 \<notin> set xs) \<or> open_bracket xs)"

text \<open>
  \<open>is_trailer post\<close>: what may follow a tag "at the very end": white space, then at most
  one quote character (\<open>"\<close> 34 or \<open>'\<close> 39), then white space.
\<close>

definition is_trailer :: "pystr \<Rightarrow> bool" where
  "is_trailer post =
     (case dropWhile is_space post of
        [] \<Rightarrow> True
      | q # r \<Rightarrow> (q = 34 \<or> q = 39) \<and> dropWhile is_space r = [])"

text \<open>
  \<open>image_for mapping tag\<close>: the image of a tag validated against the mapping, with the
  default image for a tag that is not a key.
\<close>

definition image_for :: "(pystr, pystr) dict \<Rightarrow> pystr \<Rightarrow> pystr" where
  "image_for mapping tag =
     (case map_of mapping tag of
        Some filename \<Rightarrow> filename
      | None \<Rightarrow> dict_get mapping (ascii ''default'') (ascii ''other.jpg''))"

text \<open>The common beginning \<^verbatim>\<open>\[([^\]]+)\]\<close> of the two tag patterns.\<close>

abbreviation bracket_head :: "item list \<Rightarrow> item list" where
  "bracket_head tail \<equiv>
     One (Lit 91) # GroupOpen # Plus (NotLit 93) # GroupClose # One (Lit 93) # tail"

text \<open>\<open>item_avoids a i\<close>: the pattern item \<open>i\<close> never consumes the character \<open>a\<close>.\<close>

fun item_avoids :: "pychar \<Rightarrow> item \<Rightarrow> bool" where
  "item_avoids a (One c) = (\<not> in_cls c a)"
| "item_avoids a (Star c) = (\<not> in_cls c a)"
| "item_avoids a (Plus c) = (\<not> in_cls c a)"
| "item_avoids a (Opt c) = (\<not> in_cls c a)"
| "item_avoids a GroupOpen = True"
| "item_avoids a GroupClose = True"
| "item_avoids a Eos = True"

section \<open>A small database for the examples\<close>

text \<open>
  One character, keyed \<open>"1"\<close>, with three emotion names and a default image. It is the
  input of the concrete instances shown after the theorems.
\<close>

definition example_character :: character where
  "example_character =
     \<lparr>name = ascii ''Garon'', role = ascii ''blacksmith'',
      identity_core = Some (ascii ''A maker of blades.''),
      psychological_shadow = None, inner_conflict = None, identity_lens = None,
      core_philosophy = None, dialogue_style = None,
      forbidden_lines = Some [ascii ''I did it''],
      interview_modes = Some [ascii ''sad'', ascii ''angry''],
      relationships = None, sub_narratives = None, secret_lore = None,
      signature_line = None,
      emotion_mapping = Some [(ascii ''sad'', ascii ''sad.jpg''),
                              (ascii ''angry'', ascii ''angry.jpg''),
                              (ascii ''default'', ascii ''calm.jpg'')]\<rparr>"

definition example_rules :: core_rules where
  "example_rules =
     \<lparr>non_breakable_ruleset = Some (ascii ''Stay in character.''),
      core_narrative = None, interrogation_context = None,
      forbidden_behaviors = None, allowed_behaviors = None, final_purpose = None\<rparr>"

definition example_db :: CharacterDatabase where
  "example_db = \<lparr>rules = example_rules, characters = [(ascii ''1'', example_character)]\<rparr>"

text \<open>
  Two behaviours of the client libraries for the examples. The state of a chat engine is
  the number of calls made on it. Under \<open>failing_backend\<close> every call raises; under
  \<open>flaky_backend\<close> the first call of a chat engine raises and the later ones answer.
\<close>

definition failing_backend :: "(unit, nat) backend" where
  "failing_backend =
     \<lparr>completions_create = (\<lambda>c messages. (Inl (LibError (ascii ''APIError'') (ascii ''500'')), c)),
      completions_stream = (\<lambda>c messages. (([], Some (LibError (ascii ''APIError'') (ascii ''500''))), c)),
      from_defaults = (\<lambda>system_prompt. 0),
      chat = (\<lambda>eng question. (Inl (LibError (ascii ''ResponseError'') (ascii ''503'')), Suc eng)),
      stream_chat = (\<lambda>eng question.
        (([], Some (LibError (ascii ''ResponseError'') (ascii ''503''))), Suc eng))\<rparr>"

definition flaky_backend :: "(unit, nat) backend" where
  "flaky_backend =
     \<lparr>completions_create = (\<lambda>c messages. (Inr (ascii ''I was home. [sad]''), c)),
      completions_stream = (\<lambda>c messages. (([ascii ''I was home.'', ascii '' [sad]''], None), c)),
      from_defaults = (\<lambda>system_prompt. 0),
      chat = (\<lambda>eng question.
        (if eng = 0 then Inl (LibError (ascii ''ResponseError'') (ascii ''503''))
         else Inr (ascii ''I was home. [sad]''), Suc eng)),
      stream_chat = (\<lambda>eng question.
        (if eng = 0 then ([ascii ''I was''], Some (LibError (ascii ''ResponseError'') (ascii ''503'')))
         else ([ascii ''I was home.'', ascii '' [sad]''], None), Suc eng))\<rparr>"

section \<open>Verified properties\<close>

subsection \<open>Evaluation rules\<close>

lemma ascii_simps:
  "ascii [] = []"
  "ascii (c # cs) = of_char c # ascii cs"
  by (simp_all add: ascii_def)

lemmas str_eval = ascii_simps str_int_def str_nat.simps

lemmas example_eval = example_db_def example_character_def example_rules_def

lemmas regex_eval =
  re_search_def re_finditer_def re_sub_empty_def finditer_from.simps sub_from.simps
  pattern_artifact1_def pattern_artifact2_def pattern_end_def pattern_any_def
  is_space_def is_decimal_def decimal_zeros_def strip_def group1_def

lemmas parser_eval =
  parse_emotion_tag_def clean_artifacts_def find_tag_def map_emotion_to_image_def
  get_emotion_mapping_def get_default_emotion_def dict_get_def opt_get_def Let_def

subsection \<open>What the tag patterns match\<close>

lemma star_until:
  "match_here (Star (NotLit a) # GroupClose # One (Lit a) # tail) (t @ a # r) pos g =
     match_here tail r (pos + length t + 1) (fst g, pos + length t)" if "a \<notin> set t"
  using that
proof (induction t arbitrary: pos)
  case Nil
  then show ?case by simp
next
  case (Cons x t)
  then have "x \<noteq> a" "a \<notin> set t" by auto
  with Cons.IH [of "Suc pos"] show ?case
    by (simp split: option.splits)
qed

lemma star_until_none:
  "a \<notin> set t \<Longrightarrow> match_here (Star (NotLit a) # GroupClose # One (Lit a) # tail) t pos g = None"
  by (induction t arbitrary: pos) auto

lemma match_bracket:
  assumes "93 \<notin> set t"
  shows "match_here (bracket_head tail) (91 # t @ 93 # r) pos g =
           (if t = [] then None
            else match_here tail r (pos + length t + 2) (Suc pos, Suc pos + length t))"
proof (cases t)
  case Nil
  then show ?thesis by simp
next
  case (Cons x t')
  with assms have "x \<noteq> 93" "93 \<notin> set t'" by auto
  with Cons star_until [of 93 t' "tail" r "Suc (Suc pos)" "(Suc pos, snd g)"]
  show ?thesis by simp
qed

lemma match_bracket_other:
  "x \<noteq> 91 \<Longrightarrow> match_here (bracket_head tail) (x # s) pos g = None"
  by simp

lemma match_bracket_unclosed:
  "93 \<notin> set s \<Longrightarrow> match_here (bracket_head tail) (91 # s) pos g = None"
  by (cases s) (auto simp: star_until_none)

lemma match_bracket_empty: "match_here (bracket_head tail) [] pos g = None"
  by simp

lemma star_space_eos:
  "match_here [Star Space, Eos] r pos g =
     (if dropWhile is_space r = [] then Some (pos + length r, g) else None)"
proof (induction r arbitrary: pos)
  case Nil
  then show ?case by simp
next
  case (Cons x r)
  show ?case
  proof (cases "is_space x")
    case True
    with Cons [of "Suc pos"] show ?thesis by (auto simp: is_space_def)
  next
    case False
    then have "x \<noteq> 10" by (auto simp: is_space_def)
    with False show ?thesis by simp
  qed
qed

lemma opt_quote_eos:
  "match_here [Opt (OneOf [34, 39]), Star Space, Eos] r pos g =
     (case r of
        [] \<Rightarrow> Some (pos, g)
      | q # r2 \<Rightarrow>
          if q = 34 \<or> q = 39
          then (if dropWhile is_space r2 = [] then Some (pos + length r, g) else None)
          else (if dropWhile is_space r = [] then Some (pos + length r, g) else None))"
proof (cases r)
  case Nil
  then show ?thesis by simp
next
  case (Cons q r2)
  have nsp: "\<not> is_space 34" "\<not> is_space 39" by (simp_all add: is_space_def)
  show ?thesis
    using Cons nsp star_space_eos [of r2 "Suc pos" g] star_space_eos [of "q # r2" pos g]
    by (auto simp del: match_here.simps(5,12) simp: match_here.simps(9))
qed

lemma is_trailer_Cons_space: "is_space x \<Longrightarrow> is_trailer (x # r) = is_trailer r"
  by (simp add: is_trailer_def)

lemma all_space_trailer: "dropWhile is_space r = [] \<Longrightarrow> is_trailer r"
proof -
  assume h: "dropWhile is_space r = []"
  show ?thesis unfolding is_trailer_def h by simp
qed

lemma match_trailer:
  "match_here [Star Space, Opt (OneOf [34, 39]), Star Space, Eos] r pos g =
     (if is_trailer r then Some (pos + length r, g) else None)"
proof (induction r arbitrary: pos)
  case Nil
  then show ?case by (simp add: is_trailer_def)
next
  case (Cons x r)
  show ?case
  proof (cases "is_space x")
    case True
    show ?thesis
    proof (cases "is_trailer r")
      case t: True
      with True Cons [of "Suc pos"] show ?thesis
        by (simp add: is_trailer_Cons_space del: match_here.simps(9,12))
    next
      case f: False
      then have "dropWhile is_space r \<noteq> []" using all_space_trailer by blast
      moreover have "x \<noteq> 34" "x \<noteq> 39" using True by (auto simp: is_space_def)
      ultimately show ?thesis
        using True f Cons [of "Suc pos"] opt_quote_eos [of "x # r" pos g]
        by (simp add: is_trailer_Cons_space del: match_here.simps(9,12))
    qed
  next
    case False
    with opt_quote_eos [of "x # r" pos g] show ?thesis
      by (simp add: is_trailer_def del: match_here.simps(9,12))
  qed
qed

lemma pattern_any_head: "pattern_any = bracket_head []"
  by (simp add: pattern_any_def)

lemma pattern_end_head:
  "pattern_end = bracket_head [Star Space, Opt (OneOf [34, 39]), Star Space, Eos]"
  by (simp add: pattern_end_def)

lemma no_tag_here:
  assumes "\<not> (x = 91 \<and> tag_follows xs)"
  shows "match_here (bracket_head tail) (x # xs) pos g = None"
proof (cases "x = 91")
  case False
  then show ?thesis by simp
next
  case True
  show ?thesis
  proof (cases "93 \<in> set xs")
    case False
    with True match_bracket_unclosed [of xs tail pos g] show ?thesis
      by (simp del: match_here.simps)
  next
    case in93: True
    then obtain t r where xs: "xs = t @ 93 # r" and t: "93 \<notin> set t"
      by (meson split_list_first)
    have "t = []"
    proof (cases t)
      case Nil
      then show ?thesis .
    next
      case (Cons y t')
      with xs t assms True show ?thesis by auto
    qed
    with True xs match_bracket [of "[]" tail r pos g] show ?thesis by simp
  qed
qed

lemma search_no_tag:
  "\<not> has_tag s \<Longrightarrow> search_from (bracket_head tail) s pos = None"
proof (induction s arbitrary: pos)
  case Nil
  then show ?case by simp
next
  case (Cons x xs)
  then have "match_here (bracket_head tail) (x # xs) pos (0, 0) = None"
    using no_tag_here [of x xs tail pos "(0, 0)"] by auto
  with Cons show ?case by (simp del: match_here.simps)
qed

lemma is_trailer_chars:
  assumes "is_trailer r" and "c \<in> set r"
  shows "is_space c \<or> c = 34 \<or> c = 39"
proof -
  have r: "r = takeWhile is_space r @ dropWhile is_space r" by simp
  show ?thesis
  proof (cases "dropWhile is_space r")
    case Nil
    with assms show ?thesis by auto
  next
    case (Cons q r2)
    with assms(1) have q: "q = 34 \<or> q = 39" and r2: "dropWhile is_space r2 = []"
      by (auto simp: is_trailer_def)
    from r Cons have "set r = set (takeWhile is_space r) \<union> {q} \<union> set r2"
      by (metis Un_insert_right append_Nil2 list.simps(15) set_append sup_bot.right_neutral Un_assoc insert_is_Un)
    with assms(2) q r2 show ?thesis
      by (auto dest: set_takeWhileD)
  qed
qed

lemma is_trailer_no_open: "is_trailer r \<Longrightarrow> 91 \<notin> set r"
  using is_trailer_chars [of r 91] by (auto simp: is_space_def)

lemma is_trailer_no_close: "is_trailer r \<Longrightarrow> 93 \<notin> set r"
  using is_trailer_chars [of r 93] by (auto simp: is_space_def)

lemma search_end_found:
  assumes "t \<noteq> []" and "93 \<notin> set t" and "is_trailer post"
  shows "\<not> open_bracket pre \<Longrightarrow>
     search_from pattern_end (pre @ 91 # t @ 93 # post) pos =
       Some \<lparr>m_start = pos + length pre,
             m_end = pos + length pre + length t + 2 + length post,
             g_start = pos + length pre + 1,
             g_end = pos + length pre + 1 + length t\<rparr>"
proof (induction pre arbitrary: pos)
  case Nil
  from assms show ?case
    by (simp add: pattern_end_head match_bracket match_trailer del: match_here.simps)
next
  case (Cons x pre)
  let ?L = "91 # t @ 93 # post"
  have none: "match_here pattern_end (x # pre @ ?L) pos (0, 0) = None"
  proof (cases "x = 91")
    case False
    then show ?thesis by (simp add: pattern_end_head)
  next
    case True
    with Cons.prems have "93 \<in> set pre" by simp
    then obtain u v where pre: "pre = u @ 93 # v" and u: "93 \<notin> set u"
      by (meson split_list_first)
    have "\<not> is_trailer (v @ ?L)" using is_trailer_no_open by fastforce
    with True pre u match_bracket [of u _ "v @ ?L" pos "(0, 0)"] show ?thesis
      by (simp add: pattern_end_head match_trailer del: match_here.simps)
  qed
  from Cons.prems have "\<not> open_bracket pre" by simp
  from Cons.IH [OF this, of "Suc pos"] none show ?case
    by (simp del: match_here.simps)
qed

lemma open_bracket_suffix: "open_bracket b \<Longrightarrow> open_bracket (a @ b)"
  by (induction a) auto

lemma finditer_skip:
  assumes "match_here p (x # s) pos (0, 0) = None"
  shows "finditer_from p (x # s) pos = finditer_from p s (Suc pos)"
proof (cases "search_from p s (Suc pos)")
  case None
  with assms show ?thesis
    by (simp add: finditer_from.simps [of p "x # s"] finditer_from.simps [of p s]
             del: match_here.simps)
next
  case (Some m)
  from search_from_bounds [OF Some] have "Suc pos \<le> m_start m" "m_start m \<le> m_end m"
    by auto
  then have "drop (m_end m - pos) (x # s) = drop (m_end m - Suc pos) s"
    by (simp add: drop_Cons')
  with assms Some show ?thesis
    by (simp add: finditer_from.simps [of p "x # s"] finditer_from.simps [of p s]
             del: match_here.simps)
qed

lemma finditer_hit:
  assumes "match_here p (x # s) pos (0, 0) = Some (e, gs, ge)" and "pos < e"
  shows "finditer_from p (x # s) pos =
           \<lparr>m_start = pos, m_end = e, g_start = gs, g_end = ge\<rparr>
             # finditer_from p (drop (e - pos) (x # s)) e"
  using assms by (simp add: finditer_from.simps [of p "x # s"] del: match_here.simps)

lemma finditer_no_tag: "\<not> has_tag s \<Longrightarrow> finditer_from pattern_any s pos = []"
  by (simp add: finditer_from.simps [of _ s] pattern_any_head search_no_tag del: match_here.simps)

lemma finditer_last:
  assumes "t \<noteq> []" and "93 \<notin> set t" and "\<not> has_tag post"
  shows "\<not> open_bracket pre \<Longrightarrow>
     finditer_from pattern_any (pre @ 91 # t @ 93 # post) pos \<noteq> [] \<and>
     last (finditer_from pattern_any (pre @ 91 # t @ 93 # post) pos) =
       \<lparr>m_start = pos + length pre,
        m_end = pos + length pre + length t + 2,
        g_start = pos + length pre + 1,
        g_end = pos + length pre + 1 + length t\<rparr>"
proof (induction pre arbitrary: pos rule: length_induct)
  case (1 pre)
  let ?L = "91 # t @ 93 # post"
  show ?case
  proof (cases pre)
    case Nil
    from assms have
      "match_here pattern_any ?L pos (0, 0) = Some (pos + length t + 2, Suc pos, Suc pos + length t)"
      by (simp del: match_here.simps add: pattern_any_head match_bracket match_here.simps(1))
    from finditer_hit [OF this] assms(3) Nil show ?thesis
      by (simp add: finditer_no_tag)
  next
    case (Cons x pre')
    from 1(2) Cons have closed: "\<not> open_bracket pre'" and x: "x = 91 \<Longrightarrow> 93 \<in> set pre'"
      by auto
    have IH: "\<And>q pos'. length q < length pre \<Longrightarrow> \<not> open_bracket q \<Longrightarrow>
        finditer_from pattern_any (q @ ?L) pos' \<noteq> [] \<and>
        last (finditer_from pattern_any (q @ ?L) pos') =
          \<lparr>m_start = pos' + length q, m_end = pos' + length q + length t + 2,
           g_start = pos' + length q + 1, g_end = pos' + length q + 1 + length t\<rparr>"
      using 1(1) by blast
    show ?thesis
    proof (cases "match_here pattern_any (x # pre' @ ?L) pos (0, 0)")
      case None
      from finditer_skip [OF None] IH [of pre' "Suc pos"] closed Cons show ?thesis
        by simp
    next
      case (Some r)
      then have x91: "x = 91" by (cases "x = 91") (simp_all add: pattern_any_head)
      with x obtain u v where pre': "pre' = u @ 93 # v" and u: "93 \<notin> set u"
        by (meson split_list_first)
      from Some x91 pre' u have une: "u \<noteq> []"
        and r: "r = (pos + length u + 2, Suc pos, Suc pos + length u)"
        using match_bracket [of u "[]" "v @ ?L" pos "(0, 0)"]
        by (auto simp del: match_here.simps simp add: pattern_any_head match_here.simps(1)
                 split: if_splits)
      have cv: "\<not> open_bracket v"
        using closed pre' open_bracket_suffix [of v "u @ [93]"] by auto
      have lv: "length v < length pre" using Cons pre' by simp
      have dr: "drop (pos + length u + 2 - pos) (x # pre' @ ?L) = v @ ?L"
        using pre' by simp
      from finditer_hit [of pattern_any x "pre' @ ?L" pos "pos + length u + 2" "Suc pos" "Suc pos + length u"]
        Some r
      have "finditer_from pattern_any (x # pre' @ ?L) pos =
          \<lparr>m_start = pos, m_end = pos + length u + 2, g_start = Suc pos, g_end = Suc pos + length u\<rparr>
            # finditer_from pattern_any (v @ ?L) (pos + length u + 2)"
        unfolding dr by simp
      with IH [OF lv cv, of "pos + length u + 2"] Cons pre' show ?thesis
        by simp
    qed
  qed
qed

lemma search_end_inside:
  assumes "\<not> is_trailer post" and "\<not> has_tag post"
  shows "93 \<notin> set t \<Longrightarrow> search_from pattern_end (t @ 93 # post) pos = None"
proof (induction t arbitrary: pos)
  case Nil
  have "match_here pattern_end (93 # post) pos (0, 0) = None"
    by (simp add: pattern_end_head)
  with assms(2) search_no_tag [of post _ "Suc pos"] show ?case
    by (simp add: pattern_end_head del: match_here.simps)
next
  case (Cons x t)
  then have t: "93 \<notin> set t" by simp
  have "match_here pattern_end (x # t @ 93 # post) pos (0, 0) = None"
  proof (cases "x = 91")
    case False
    then show ?thesis by (simp add: pattern_end_head)
  next
    case True
    with t assms(1) match_bracket [of t _ post pos "(0, 0)"] show ?thesis
      by (simp add: pattern_end_head match_trailer del: match_here.simps)
  qed
  with Cons.IH [OF t, of "Suc pos"] show ?case
    by (simp del: match_here.simps)
qed

lemma search_end_none:
  assumes "93 \<notin> set t" and "\<not> is_trailer post" and "\<not> has_tag post"
  shows "\<not> open_bracket pre \<Longrightarrow>
     search_from pattern_end (pre @ 91 # t @ 93 # post) pos = None"
proof (induction pre arbitrary: pos)
  case Nil
  have "match_here pattern_end (91 # t @ 93 # post) pos (0, 0) = None"
    using assms(1,2) match_bracket [of t _ post pos "(0, 0)"]
    by (simp add: pattern_end_head match_trailer del: match_here.simps)
  with search_end_inside [OF assms(2,3) assms(1), of "Suc pos"] show ?case
    by (simp del: match_here.simps)
next
  case (Cons x pre)
  let ?L = "91 # t @ 93 # post"
  have none: "match_here pattern_end (x # pre @ ?L) pos (0, 0) = None"
  proof (cases "x = 91")
    case False
    then show ?thesis by (simp add: pattern_end_head)
  next
    case True
    with Cons.prems have "93 \<in> set pre" by simp
    then obtain u v where pre: "pre = u @ 93 # v" and u: "93 \<notin> set u"
      by (meson split_list_first)
    have "\<not> is_trailer (v @ ?L)" using is_trailer_no_open by fastforce
    with True pre u match_bracket [of u _ "v @ ?L" pos "(0, 0)"] show ?thesis
      by (simp add: pattern_end_head match_trailer del: match_here.simps)
  qed
  from Cons.prems have "\<not> open_bracket pre" by simp
  from Cons.IH [OF this, of "Suc pos"] none show ?case
    by (simp del: match_here.simps)
qed

lemma is_trailer_no_tag: "is_trailer r \<Longrightarrow> \<not> has_tag r"
proof -
  have "91 \<notin> set r \<Longrightarrow> \<not> has_tag r" by (induction r) auto
  then show "is_trailer r \<Longrightarrow> \<not> has_tag r" using is_trailer_no_open by blast
qed

lemma find_tag_decomposed:
  assumes "t \<noteq> []" and "93 \<notin> set t" and "\<not> open_bracket pre" and "\<not> has_tag post"
  shows "find_tag (pre @ [91] @ t @ [93] @ post) =
           Some \<lparr>m_start = length pre,
                 m_end = (if is_trailer post then length pre + length t + 2 + length post
                          else length pre + length t + 2),
                 g_start = length pre + 1,
                 g_end = length pre + 1 + length t\<rparr>"
proof (cases "is_trailer post")
  case True
  with search_end_found [OF assms(1,2) True assms(3), of 0] show ?thesis
    by (simp add: find_tag_def re_search_def)
next
  case False
  with search_end_none [OF assms(2) False assms(4) assms(3), of 0]
    finditer_last [OF assms(1,2,4) assms(3), of 0]
  show ?thesis
    by (simp add: find_tag_def re_search_def re_finditer_def Let_def)
qed

lemma find_tag_none: "\<not> has_tag s \<Longrightarrow> find_tag s = None"
  using search_no_tag [of s _ 0] finditer_no_tag [of s 0]
  by (simp add: find_tag_def re_search_def re_finditer_def pattern_end_head)

lemma strip_strip: "strip (strip s) = strip s"
proof -
  have a: "dropWhile is_space (dropWhile is_space u) = dropWhile is_space u" for u
    by (metis dropWhile_idem)
  have b: "dropWhile is_space (rev (dropWhile is_space (rev w))) = rev (dropWhile is_space (rev w))"
    if "dropWhile is_space w = w" for w
  proof (cases "dropWhile is_space (rev w) = []")
    case True
    show ?thesis unfolding True by simp
  next
    case False
    then have "rev (dropWhile is_space (rev w)) \<noteq> []" by simp
    have "w = rev (dropWhile is_space (rev w)) @ rev (takeWhile is_space (rev w))"
      by (metis rev_append rev_rev_ident takeWhile_dropWhile_id)
    then obtain y ys where "rev (dropWhile is_space (rev w)) = y # ys" and "w = y # ys @ rev (takeWhile is_space (rev w))"
      using False by (metis append_Cons neq_Nil_conv rev_is_Nil_conv)
    with that show ?thesis
      by (metis dropWhile.simps(2) dropWhile_eq_Cons_conv list.inject)
  qed
  show ?thesis
    unfolding strip_def rev_rev_ident
    by (simp add: a b)
qed

lemma tag_follows_extend: "tag_follows a \<Longrightarrow> tag_follows (a @ c)"
  by (cases a) simp_all

lemma has_tag_prepend: "has_tag b \<Longrightarrow> has_tag (a @ b)"
  by (induction a) simp_all

lemma has_tag_extend: "has_tag a \<Longrightarrow> has_tag (a @ c)"
proof (induction a)
  case Nil
  then show ?case by simp
next
  case (Cons x a)
  then show ?case using tag_follows_extend [of a c] by auto
qed

lemma tag_follows_insert:
  assumes "93 \<notin> set mid" and "tag_follows (xs @ zs)"
  shows "tag_follows (xs @ mid @ zs)"
proof (cases xs)
  case (Cons y ys)
  with assms(2) show ?thesis by auto
next
  case Nil
  with assms(2) obtain z zs' where zs: "zs = z # zs'" and z: "z \<noteq> 93" "93 \<in> set zs'"
    by (cases zs) simp_all
  show ?thesis
  proof (cases mid)
    case Nil
    with \<open>xs = []\<close> assms(2) show ?thesis by simp
  next
    case (Cons m ms)
    with assms(1) zs z \<open>xs = []\<close> show ?thesis by auto
  qed
qed

lemma has_tag_insert:
  assumes "93 \<notin> set mid"
  shows "has_tag (xs @ zs) \<Longrightarrow> has_tag (xs @ mid @ zs)"
proof (induction xs)
  case Nil
  then show ?case using has_tag_prepend by simp
next
  case (Cons x xs)
  show ?case
  proof (cases "has_tag (xs @ zs)")
    case True
    with Cons.IH show ?thesis by simp
  next
    case False
    with Cons.prems have "x = 91" and "tag_follows (xs @ zs)" by simp_all
    with tag_follows_insert [OF assms, of xs zs] show ?thesis by simp
  qed
qed

lemma has_tag_iff:
  "has_tag s \<longleftrightarrow>
     (\<exists>pre tag post. s = pre @ [91] @ tag @ [93] @ post \<and> tag \<noteq> [] \<and> 93 \<notin> set tag)"
proof
  assume "has_tag s"
  then show "\<exists>pre tag post. s = pre @ [91] @ tag @ [93] @ post \<and> tag \<noteq> [] \<and> 93 \<notin> set tag"
  proof (induction s)
    case Nil
    then show ?case by simp
  next
    case (Cons x xs)
    show ?case
    proof (cases "has_tag xs")
      case True
      with Cons.IH obtain pre tag post where
        d: "xs = pre @ [91] @ tag @ [93] @ post" "tag \<noteq> []" "93 \<notin> set tag" by blast
      from d(1) have "x # xs = (x # pre) @ [91] @ tag @ [93] @ post" by simp
      with d(2,3) show ?thesis by blast
    next
      case False
      with Cons.prems have x: "x = 91" and tf: "tag_follows xs" by simp_all
      from tf obtain y ys where xs: "xs = y # ys" and y: "y \<noteq> 93" and in93: "93 \<in> set ys"
        by (cases xs) simp_all
      from in93 obtain u v where ys: "ys = u @ 93 # v" and u: "93 \<notin> set u"
        by (meson split_list_first)
      from x xs ys have "x # xs = [] @ [91] @ (y # u) @ [93] @ v" by simp
      moreover have "y # u \<noteq> []" by simp
      moreover have "93 \<notin> set (y # u)" using y u by simp
      ultimately show ?thesis by blast
    qed
  qed
next
  assume "\<exists>pre tag post. s = pre @ [91] @ tag @ [93] @ post \<and> tag \<noteq> [] \<and> 93 \<notin> set tag"
  then obtain pre tag post where s: "s = pre @ [91] @ tag @ [93] @ post"
    and t: "tag \<noteq> []" "93 \<notin> set tag" by blast
  from t obtain y ys where "tag = y # ys" "y \<noteq> 93" by (cases tag) auto
  then have "has_tag (91 # tag @ 93 # post)" by simp
  with s has_tag_prepend [of "91 # tag @ 93 # post" pre] show "has_tag s" by simp
qed

lemma avoid_step:
  assumes "Suc pos \<le> e" and "a \<notin> set (take (e - Suc pos) xs)" and "x \<noteq> a"
  shows "a \<notin> set (take (e - pos) (x # xs))"
proof -
  from assms(1) have "e - pos = Suc (e - Suc pos)" by arith
  with assms(2,3) show ?thesis by simp
qed

lemma match_here_avoids:
  "list_all (item_avoids a) p \<Longrightarrow> match_here p s pos g = Some (e, g') \<Longrightarrow>
     a \<notin> set (take (e - pos) s)"
proof (induction p s pos g arbitrary: e g' rule: match_here.induct)
  case (1 s pos g)
  then show ?case by simp
next
  case (2 c p pos g)
  then show ?case by simp
next
  case (3 c p x xs pos g)
  from "3.prems"(2) have cx: "in_cls c x" and m: "match_here p xs (Suc pos) g = Some (e, g')"
    by (simp_all split: if_splits)
  from "3.prems"(1) have av: "\<not> in_cls c a" "list_all (item_avoids a) p" by simp_all
  from cx av(1) have "x \<noteq> a" by auto
  then have xa: "x \<noteq> a" .
  from match_here_bounds [OF m] have le: "Suc pos \<le> e" by simp
  from avoid_step [OF le "3.IH" [OF cx av(2) m] xa] show ?case .
next
  case (4 c p pos g)
  then show ?case by simp
next
  case (5 c p x xs pos g)
  from "5.prems"(1) have av: "\<not> in_cls c a" "list_all (item_avoids a) p" by simp_all
  show ?case
  proof (cases "in_cls c x")
    case False
    with "5.prems"(2) have m: "match_here p (x # xs) pos g = Some (e, g')" by simp
    from "5.IH"(3) [OF False av(2) m] show ?thesis .
  next
    case True
    then have xa: "x \<noteq> a" using av(1) by auto
    show ?thesis
    proof (cases "match_here (Star c # p) xs (Suc pos) g")
      case None
      with True "5.prems"(2) have m: "match_here p (x # xs) pos g = Some (e, g')" by simp
      from "5.IH"(2) [OF True None av(2) m] show ?thesis .
    next
      case (Some r)
      with True "5.prems"(2) have m: "match_here (Star c # p) xs (Suc pos) g = Some (e, g')"
        by simp
      from match_here_bounds [OF m] have le: "Suc pos \<le> e" by simp
      from avoid_step [OF le "5.IH"(1) [OF True "5.prems"(1) m] xa] show ?thesis .
    qed
  qed
next
  case (6 c p pos g)
  then show ?case by simp
next
  case (7 c p x xs pos g)
  from "7.prems"(2) have cx: "in_cls c x"
    and m: "match_here (Star c # p) xs (Suc pos) g = Some (e, g')"
    by (simp_all split: if_splits)
  from "7.prems"(1) have av: "\<not> in_cls c a" "list_all (item_avoids a) (Star c # p)" by simp_all
  from cx av(1) have "x \<noteq> a" by auto
  then have xa: "x \<noteq> a" .
  from match_here_bounds [OF m] have le: "Suc pos \<le> e" by simp
  from avoid_step [OF le "7.IH" [OF cx av(2) m] xa] show ?case .
next
  case (8 c p pos g)
  then show ?case by simp
next
  case (9 c p x xs pos g)
  from "9.prems"(1) have av: "\<not> in_cls c a" "list_all (item_avoids a) p" by simp_all
  show ?case
  proof (cases "in_cls c x")
    case False
    with "9.prems"(2) have m: "match_here p (x # xs) pos g = Some (e, g')" by simp
    from "9.IH"(3) [OF False av(2) m] show ?thesis .
  next
    case True
    then have xa: "x \<noteq> a" using av(1) by auto
    show ?thesis
    proof (cases "match_here p xs (Suc pos) g")
      case None
      with True "9.prems"(2) have m: "match_here p (x # xs) pos g = Some (e, g')" by simp
      from "9.IH"(2) [OF True None av(2) m] show ?thesis .
    next
      case (Some r)
      with True "9.prems"(2) have m: "match_here p xs (Suc pos) g = Some (e, g')"
        by simp
      from match_here_bounds [OF m] have le: "Suc pos \<le> e" by simp
      from avoid_step [OF le "9.IH"(1) [OF True av(2) m] xa] show ?thesis .
    qed
  qed
next
  case (10 p s pos g)
  then show ?case by simp
next
  case (11 p s pos g)
  then show ?case by simp
next
  case (12 p s pos g)
  from "12.prems"(2) have c: "s = [] \<or> s = [10]" and m: "match_here p s pos g = Some (e, g')"
    by (simp_all split: if_splits)
  from "12.prems"(1) have "list_all (item_avoids a) p" by simp
  from "12.IH" [OF c this m] show ?case .
qed

lemma search_from_avoids:
  "list_all (item_avoids a) p \<Longrightarrow> search_from p s pos = Some m \<Longrightarrow>
     a \<notin> set (take (m_end m - m_start m) (drop (m_start m - pos) s))"
proof (induction p s pos rule: search_from.induct)
  case (1 p pos)
  then show ?case by simp
next
  case (2 p x xs pos)
  show ?case
  proof (cases "match_here p (x # xs) pos (0, 0)")
    case None
    with "2.prems"(2) have s: "search_from p xs (Suc pos) = Some m" by simp
    from search_from_bounds [OF s] have "m_start m - pos = Suc (m_start m - Suc pos)" by arith
    with "2.IH" [OF None "2.prems"(1) s] show ?thesis by simp
  next
    case (Some r)
    obtain e gs ge where r: "r = (e, gs, ge)" by (cases r)
    with Some "2.prems"(2) have m: "m = \<lparr>m_start = pos, m_end = e, g_start = gs, g_end = ge\<rparr>"
      by simp
    from match_here_avoids [OF "2.prems"(1), of "x # xs" pos "(0, 0)" e "(gs, ge)"] Some r m
    show ?thesis by simp
  qed
qed

lemma sub_from_keeps_tags:
  "list_all (item_avoids 93) p \<Longrightarrow> has_tag (u @ sub_from p s) \<Longrightarrow> has_tag (u @ s)"
proof (induction p s arbitrary: u rule: sub_from.induct)
  case (1 p s)
  show ?case
  proof (cases "search_from p s 0")
    case None
    with "1.prems"(2) show ?thesis by (simp add: sub_from.simps [of p s])
  next
    case (Some m)
    show ?thesis
    proof (cases "m_start m < m_end m")
      case False
      with Some "1.prems"(2) show ?thesis by (simp add: sub_from.simps [of p s])
    next
      case True
      let ?a = "take (m_start m) s"
      let ?mid = "take (m_end m - m_start m) (drop (m_start m) s)"
      let ?w = "drop (m_end m) s"
      from search_from_bounds [OF Some] have b: "m_start m \<le> m_end m" "m_end m \<le> length s"
        by simp_all
      have split: "s = ?a @ ?mid @ ?w"
      proof -
        have "drop (m_start m) s = ?mid @ drop (m_end m - m_start m) (drop (m_start m) s)"
          by (rule append_take_drop_id [symmetric])
        also have "drop (m_end m - m_start m) (drop (m_start m) s) = ?w"
          using b by simp
        finally show ?thesis by (metis append_take_drop_id)
      qed
      from search_from_avoids [OF "1.prems"(1) Some] have mid: "93 \<notin> set ?mid" by simp
      from "1.prems"(2) Some True have "has_tag ((u @ ?a) @ sub_from p ?w)"
        by (simp add: sub_from.simps [of p s])
      from "1.IH" [OF Some True "1.prems"(1) this] have "has_tag ((u @ ?a) @ ?w)" .
      from has_tag_insert [OF mid this] have "has_tag (u @ ?a @ ?mid @ ?w)" by simp
      with split show ?thesis by simp
    qed
  qed
qed

lemma strip_infix: "\<exists>a c. s = a @ strip s @ c"
proof -
  let ?u = "dropWhile is_space s"
  have 1: "s = takeWhile is_space s @ ?u" by simp
  have 2: "?u = rev (dropWhile is_space (rev ?u)) @ rev (takeWhile is_space (rev ?u))"
    by (metis rev_append rev_rev_ident takeWhile_dropWhile_id)
  have "s = takeWhile is_space s @ strip s @ rev (takeWhile is_space (rev ?u))"
    unfolding strip_def using 1 2 by metis
  then show ?thesis by blast
qed

lemma strip_keeps_tags: "has_tag (strip s) \<Longrightarrow> has_tag s"
proof -
  assume h: "has_tag (strip s)"
  obtain a c where s: "s = a @ strip s @ c" using strip_infix by blast
  from h have "has_tag (a @ strip s @ c)"
    using has_tag_extend has_tag_prepend by blast
  with s show ?thesis by simp
qed

lemma artifact_patterns_avoid:
  "list_all (item_avoids 93) pattern_artifact1"
  "list_all (item_avoids 93) pattern_artifact2"
  by (simp_all add: pattern_artifact1_def pattern_artifact2_def is_decimal_def decimal_zeros_def)

lemma clean_artifacts_keeps_tags: "has_tag (clean_artifacts s) \<Longrightarrow> has_tag s"
proof -
  assume "has_tag (clean_artifacts s)"
  then have "has_tag (sub_from pattern_artifact2 (sub_from pattern_artifact1 s))"
    unfolding clean_artifacts_def re_sub_empty_def by (rule strip_keeps_tags)
  then have "has_tag (sub_from pattern_artifact1 s)"
    using sub_from_keeps_tags [OF artifact_patterns_avoid(2), of "[]"] by simp
  then show "has_tag s"
    using sub_from_keeps_tags [OF artifact_patterns_avoid(1), of "[]"] by simp
qed

lemma last_tag_exists:
  "has_tag s \<Longrightarrow>
     \<exists>pre tag post. s = pre @ [91] @ tag @ [93] @ post \<and> tag \<noteq> [] \<and> 93 \<notin> set tag \<and>
        \<not> open_bracket pre \<and> \<not> has_tag post"
proof (induction s)
  case Nil
  then show ?case by simp
next
  case (Cons x xs)
  show ?case
  proof (cases "has_tag xs")
    case True
    with Cons.IH obtain pre tag post where
      d: "xs = pre @ [91] @ tag @ [93] @ post" "tag \<noteq> []" "93 \<notin> set tag"
         "\<not> open_bracket pre" "\<not> has_tag post" by blast
    show ?thesis
    proof (cases "x = 91 \<and> 93 \<notin> set pre")
      case False
      with d(4) have "\<not> open_bracket (x # pre)" by simp
      moreover from d(1) have "x # xs = (x # pre) @ [91] @ tag @ [93] @ post" by simp
      ultimately show ?thesis using d(2,3,5) by blast
    next
      case t: True
      with d(1) have "x # xs = [] @ [91] @ (pre @ [91] @ tag) @ [93] @ post" by simp
      moreover have "pre @ [91] @ tag \<noteq> []" by simp
      moreover have "93 \<notin> set (pre @ [91] @ tag)" using t d(3) by simp
      moreover have "\<not> open_bracket []" by simp
      ultimately show ?thesis using d(5) by blast
    qed
  next
    case False
    with Cons.prems have x: "x = 91" and tf: "tag_follows xs" by simp_all
    from tf obtain y ys where xs: "xs = y # ys" and y: "y \<noteq> 93" and in93: "93 \<in> set ys"
      by (cases xs) simp_all
    from in93 obtain u v where ys: "ys = u @ 93 # v" and u: "93 \<notin> set u"
      by (meson split_list_first)
    have "\<not> has_tag v"
    proof
      assume "has_tag v"
      then have "has_tag ((y # u @ [93]) @ v)" by (rule has_tag_prepend)
      with xs ys False show False by simp
    qed
    moreover from x xs ys have "x # xs = [] @ [91] @ (y # u) @ [93] @ v" by simp
    moreover have "y # u \<noteq> []" by simp
    moreover have "93 \<notin> set (y # u)" using y u by simp
    moreover have "\<not> open_bracket []" by simp
    ultimately show ?thesis by blast
  qed
qed

subsection \<open>The image returned by the emotion parser\<close>

lemma get_emotion_mapping_known:
  "map_of (characters db) (str_int sid) = Some ch \<Longrightarrow>
     get_emotion_mapping db sid = Inr (opt_get (emotion_mapping ch) [])"
  by (simp add: get_emotion_mapping_def)

lemma dict_get_default_in:
  "dict_get d k dflt \<in> ran (map_of d) \<or> dict_get d k dflt = dflt"
  by (auto simp: dict_get_def ran_def split: option.splits)

lemma map_emotion_to_image_known:
  assumes "map_of (characters db) (str_int sid) = Some ch"
  shows "\<exists>img valid. map_emotion_to_image db sid tag = Inr (img, valid) \<and>
           (img \<in> ran (map_of (opt_get (emotion_mapping ch) [])) \<or> img = ascii ''other.jpg'')"
  using dict_get_default_in [of "opt_get (emotion_mapping ch) []" "ascii ''default''" "ascii ''other.jpg''"]
  by (auto simp: map_emotion_to_image_def get_emotion_mapping_known [OF assms] Let_def ran_def
           split: option.splits)

text \<open>
  C9. For every response and every suspect whose key \<open>str(suspect_id)\<close> is in the
  characters table, \<open>parse_emotion_tag\<close> returns (it raises nothing), and the image
  filename it returns is a value of that character's emotion mapping or the literal
  \<open>other.jpg\<close>.
\<close>

theorem parse_emotion_tag_image_range:
  assumes "map_of (characters db) (str_int sid) = Some ch"
  shows "\<exists>img cleaned tag. parse_emotion_tag db response sid = Inr (img, cleaned, tag) \<and>
           (img \<in> ran (map_of (opt_get (emotion_mapping ch) [])) \<or> img = ascii ''other.jpg'')"
proof (cases "find_tag (clean_artifacts response)")
  case None
  with dict_get_default_in [of "opt_get (emotion_mapping ch) []" "ascii ''default''" "ascii ''other.jpg''"]
  show ?thesis
    by (auto simp: parse_emotion_tag_def Let_def get_emotion_mapping_known [OF assms])
next
  case (Some m)
  from map_emotion_to_image_known [OF assms, of "strip (group1 (clean_artifacts response) m)"]
  obtain img valid where
    "map_emotion_to_image db sid (strip (group1 (clean_artifacts response) m)) = Inr (img, valid)"
    and "img \<in> ran (map_of (opt_get (emotion_mapping ch) [])) \<or> img = ascii ''other.jpg''"
    by blast
  with Some show ?thesis
    by (simp add: parse_emotion_tag_def Let_def get_emotion_mapping_known [OF assms])
qed

text \<open>The instance for suspect 1 of the example database and the reply \<open>I was home. [sad]\<close>.\<close>

theorem parse_emotion_tag_image_range_witness:
  "map_of (characters example_db) (str_int 1) = Some example_character \<and>
   (\<exists>img cleaned tag.
      parse_emotion_tag example_db (ascii ''I was home. [sad]'') 1 = Inr (img, cleaned, tag) \<and>
      (img \<in> ran (map_of (opt_get (emotion_mapping example_character) [])) \<or>
       img = ascii ''other.jpg''))"
proof -
  have h: "map_of (characters example_db) (str_int 1) = Some example_character"
    by (simp add: example_eval str_eval)
  from parse_emotion_tag_image_range [OF h, of "ascii ''I was home. [sad]''"] h
  show ?thesis by simp
qed

subsection \<open>The tag the emotion parser extracts\<close>

text \<open>
  C1, with the place where the tag begins made exact. The class \<^verbatim>\<open>[^\]]\<close> of both
  patterns also takes \<open>[\<close>, and the search is leftmost, so the tag does not begin at the
  last \<open>[\<close> before the closing bracket but at the first \<open>[\<close> that has no \<open>]\<close> between it
  and that bracket; a later \<open>[\<close> is part of the tag.

  Let the artifact-cleaned text be \<open>pre [ tag ] post\<close>, where \<open>tag\<close> is not empty and has
  no \<open>]\<close>, no bracketed tag follows in \<open>post\<close> (it is the last-occurring tag), and every
  \<open>[\<close> of \<open>pre\<close> is closed inside \<open>pre\<close> (the tag begins at the first \<open>[\<close> that can begin
  it). For a suspect whose key is in the database, \<open>parse_emotion_tag\<close> extracts this
  tag: when it stands at the very end (only white space and at most one quote follow)
  the end pattern finds it and the text before it is returned; otherwise the last match
  of the bracket pattern finds it and the text around it is returned. The tag, stripped,
  is looked up in the character's emotion mapping: a key gives its image, any other tag
  the character's default image. By \<open>last_tag_exists\<close> every text with a bracketed tag
  has such a decomposition.
\<close>

theorem parse_emotion_tag_extracts:
  assumes "map_of (characters db) (str_int sid) = Some ch"
    and "clean_artifacts response = pre @ [91] @ tag @ [93] @ post"
    and "tag \<noteq> []" and "93 \<notin> set tag"
    and "\<not> open_bracket pre" and "\<not> has_tag post"
  shows "parse_emotion_tag db response sid =
     Inr (image_for (opt_get (emotion_mapping ch) []) (strip tag),
          (if is_trailer post then strip pre else strip (pre @ post)),
          strip tag)"
proof -
  let ?text = "pre @ [91] @ tag @ [93] @ post"
  let ?m = "\<lparr>m_start = length pre,
             m_end = (if is_trailer post then length pre + length tag + 2 + length post
                      else length pre + length tag + 2),
             g_start = length pre + 1, g_end = length pre + 1 + length tag\<rparr>"
  have ft: "find_tag ?text = Some ?m"
    by (rule find_tag_decomposed [OF assms(3-6)])
  have g: "group1 ?text ?m = tag" by (simp add: group1_def)
  have c: "take (m_start ?m) ?text @ drop (m_end ?m) ?text =
             (if is_trailer post then pre else pre @ post)"
    by simp
  have img: "map_emotion_to_image db sid (strip tag) =
      Inr (image_for (opt_get (emotion_mapping ch) []) (strip tag),
           map_of (opt_get (emotion_mapping ch) []) (strip tag) \<noteq> None)"
    by (auto simp: map_emotion_to_image_def get_emotion_mapping_known [OF assms(1)]
          image_for_def strip_strip Let_def split: option.splits)
  show ?thesis
    unfolding parse_emotion_tag_def assms(2) Let_def ft option.case g c img
    by (simp add: get_emotion_mapping_known [OF assms(1)])
qed

text \<open>
  The reply \<open>[angry] I was home. [ sad ] "\<close> of suspect 1: the tag at the end is used, and
  the earlier tag stays in the text.
\<close>

theorem parse_emotion_tag_extracts_witness:
  "parse_emotion_tag example_db (ascii ''[angry] I was home. [ sad ] '' @ [34]) 1 =
     Inr (ascii ''sad.jpg'', ascii ''[angry] I was home.'', ascii ''sad'')"
proof -
  have key: "map_of (characters example_db) (str_int 1) = Some example_character"
    by (simp add: example_eval str_eval)
  have cl: "clean_artifacts (ascii ''[angry] I was home. [ sad ] '' @ [34]) =
      ascii ''[angry] I was home. '' @ [91] @ ascii '' sad '' @ [93] @ [32, 34]"
    by (simp add: clean_artifacts_def regex_eval str_eval)
  have tag: "ascii '' sad '' \<noteq> []" "93 \<notin> set (ascii '' sad '')"
    by (simp_all add: str_eval)
  have pre: "\<not> open_bracket (ascii ''[angry] I was home. '')"
    by (simp add: str_eval)
  have post: "\<not> has_tag [32, 34]" by simp
  from parse_emotion_tag_extracts [OF key cl tag pre post] show ?thesis
    by (simp add: image_for_def is_trailer_def example_eval regex_eval str_eval dict_get_def opt_get_def)
qed

text \<open>
  C1 as it was stated fails. In the reply \<open>I [was home. [sad]\<close> of suspect 1 the tag
  \<open>[sad]\<close> stands at the very end and \<open>sad\<close> is a key of the mapping, with the image
  \<open>sad.jpg\<close>. The parser starts the tag at the first, unclosed \<open>[\<close>: it extracts
  \<open>was home. [sad\<close>, which is no key, and returns the default image and the text \<open>I\<close>.
\<close>

theorem parse_emotion_tag_unclosed_bracket:
  "parse_emotion_tag example_db (ascii ''I [was home. [sad]'') 1 =
     Inr (ascii ''calm.jpg'', ascii ''I'', ascii ''was home. [sad'') \<and>
   image_for (opt_get (emotion_mapping example_character) []) (ascii ''sad'') = ascii ''sad.jpg''"
  by (simp add: parser_eval regex_eval example_eval str_eval image_for_def)

text \<open>
  C4. When the response contains no bracketed tag (no \<open>[\<close>, one or more characters other
  than \<open>]\<close>, \<open>]\<close>), \<open>parse_emotion_tag\<close> returns, for a suspect whose key is in the
  database, the image stored under \<open>"default"\<close> in that character's emotion mapping, or
  \<open>other.jpg\<close> when the mapping has no such key, with the cleaned text and the tag name
  \<open>default\<close>.
\<close>

theorem parse_emotion_tag_no_tag:
  assumes "map_of (characters db) (str_int sid) = Some ch"
    and "\<not> (\<exists>pre tag post. response = pre @ [91] @ tag @ [93] @ post \<and> tag \<noteq> [] \<and> 93 \<notin> set tag)"
  shows "parse_emotion_tag db response sid =
     Inr (dict_get (opt_get (emotion_mapping ch) []) (ascii ''default'') (ascii ''other.jpg''),
          clean_artifacts response, ascii ''default'')"
proof -
  from assms(2) have "\<not> has_tag response" by (simp only: has_tag_iff not_False_eq_True)
  then have "\<not> has_tag (clean_artifacts response)"
    using clean_artifacts_keeps_tags by blast
  then have "find_tag (clean_artifacts response) = None" by (rule find_tag_none)
  then show ?thesis
    by (simp add: parse_emotion_tag_def Let_def get_emotion_mapping_known [OF assms(1)])
qed

text \<open>The reply \<open>I was home. []\<close> of suspect 1 has brackets but no tag.\<close>

theorem parse_emotion_tag_no_tag_witness:
  "parse_emotion_tag example_db (ascii ''I was home. []'') 1 =
     Inr (ascii ''calm.jpg'', ascii ''I was home. []'', ascii ''default'')"
proof -
  have key: "map_of (characters example_db) (str_int 1) = Some example_character"
    by (simp add: example_eval str_eval)
  have "\<not> has_tag (ascii ''I was home. []'')" by (simp add: str_eval)
  then have none: "\<not> (\<exists>pre tag post. ascii ''I was home. []'' = pre @ [91] @ tag @ [93] @ post
      \<and> tag \<noteq> [] \<and> 93 \<notin> set tag)"
    by (simp only: has_tag_iff not_False_eq_True)
  have cl: "clean_artifacts (ascii ''I was home. []'') = ascii ''I was home. []''"
    by (simp add: clean_artifacts_def regex_eval str_eval)
  from parse_emotion_tag_no_tag [OF key none] show ?thesis
    unfolding cl by (simp add: example_eval str_eval dict_get_def opt_get_def)
qed

subsection \<open>The module-level clean\_response\<close>

text \<open>
  C10. For every input, \<open>clean_response\<close> raises and returns no cleaned string: its call
  of \<open>parse_emotion_tag\<close> gives one of the two required arguments, which raises
  \<open>TypeError\<close> before the parser runs; and the assignment of the parser's triple to two
  names, which the call never reaches, would raise \<open>ValueError\<close>.
\<close>

theorem clean_response_always_raises:
  "clean_response db response =
     Inl (TypeError (ascii ''parse_emotion_tag() missing 1 required positional argument: ''
                     @ [39] @ ascii ''suspect_id'' @ [39])) \<and>
   unpack2 [image_filename, cleaned, emotion_tag] =
     Inl (ValueError (ascii ''too many values to unpack (expected 2)''))"
  by (simp add: clean_response_def call_parse_emotion_tag_def unpack2_def)

subsection \<open>The bounded history of the API mode\<close>

lemma openai_chat_histories:
  "api_chat_histories (snd (openai_chat B self sp q h cb)) = api_chat_histories self"
  by (auto simp: openai_chat_def Let_def split: option.splits prod.splits)


lemma api_history_after:
  "api_chat_histories (snd (get_suspect_response_api B db self sid q st cb)) =
     (api_chat_histories self)(sid \<mapsto>
       (let h = (case api_chat_histories self sid of None \<Rightarrow> [] | Some h \<Rightarrow> h) in
        case fst (get_suspect_response_api B db self sid q st cb) of
          Inl e \<Rightarrow> h
        | Inr r \<Rightarrow>
            (let appended = h @ [\<lparr>msg_role = ascii ''user'', msg_content = q\<rparr>,
                                 \<lparr>msg_role = ascii ''assistant'', msg_content = r\<rparr>]
             in drop (length appended - 20) appended)))"
proof -
  let ?h = "case api_chat_histories self sid of None \<Rightarrow> [] | Some h \<Rightarrow> h"
  let ?s1 = "self\<lparr>api_chat_histories := (api_chat_histories self)(sid \<mapsto> ?h)\<rparr>"
  let ?oc = "openai_chat B ?s1 (create_system_prompt db sid) q ?h (st \<and> cb)"
  have hist: "api_chat_histories (snd ?oc) = (api_chat_histories self)(sid \<mapsto> ?h)"
    by (simp add: openai_chat_histories)
  show ?thesis
  proof (cases "?oc")
    case (Pair r s2)
    with hist have h2: "api_chat_histories s2 = (api_chat_histories self)(sid \<mapsto> ?h)" by simp
    show ?thesis
    proof (cases r)
      case (Inl e)
      with Pair h2 show ?thesis
        by (simp add: get_suspect_response_api_def Let_def)
    next
      case (Inr reply)
      with Pair h2 show ?thesis
        by (simp add: get_suspect_response_api_def Let_def)
    qed
  qed
qed



lemma ollama_histories_after:
  "api_chat_histories (snd (get_suspect_response_ollama B db self sid q st cb)) =
     api_chat_histories self"
  by (simp add: get_suspect_response_ollama_def Let_def split: prod.splits)


lemma response_state:
  "snd (get_suspect_response B db self sid q st cb) =
     (if use_api self \<and> openai_client self \<noteq> None
      then snd (get_suspect_response_api B db self sid q st cb)
      else snd (get_suspect_response_ollama B db self sid q st cb))"
  by (auto simp: get_suspect_response_def split: prod.splits sum.splits)

lemma drop_last_20: "length (drop (length xs - 20) xs) \<le> 20"
  by simp

lemma api_keeps_bound:
  assumes "history_bounded self"
  shows "history_bounded (snd (get_suspect_response_api B db self sid q st cb))"
proof -
  have "length h \<le> 20"
    if "api_chat_histories (snd (get_suspect_response_api B db self sid q st cb)) k = Some h"
    for k h
  proof (cases "k = sid")
    case False
    with that assms show ?thesis
      by (simp add: api_history_after history_bounded_def)
  next
    case True
    have old: "length (case api_chat_histories self sid of None \<Rightarrow> [] | Some h \<Rightarrow> h) \<le> 20"
      using assms by (auto simp: history_bounded_def split: option.splits)
    from that True old show ?thesis
      by (auto simp: api_history_after Let_def split: sum.splits)
  qed
  then show ?thesis unfolding history_bounded_def by blast
qed

lemma response_keeps_bound:
  assumes "history_bounded self"
  shows "history_bounded (snd (get_suspect_response B db self sid q st cb))"
proof -
  have o: "history_bounded (snd (get_suspect_response_ollama B db self sid q st cb))"
    using assms by (simp add: history_bounded_def ollama_histories_after)
  have "snd (get_suspect_response B db self sid q st cb) =
          snd (get_suspect_response_api B db self sid q st cb) \<or>
        snd (get_suspect_response B db self sid q st cb) =
          snd (get_suspect_response_ollama B db self sid q st cb)"
    by (simp add: response_state)
  with o api_keeps_bound [OF assms, of B db sid q st cb] show ?thesis by auto
qed

lemma ask_all_keeps_bound:
  "history_bounded self \<Longrightarrow> history_bounded (ask_all B db self calls)"
proof (induction calls arbitrary: self)
  case Nil
  then show ?case by simp
next
  case (Cons c calls)
  obtain sid q st cb where c: "c = (sid, q, st, cb)" by (cases c)
  from Cons.prems have "history_bounded (snd (get_suspect_response B db self sid q st cb))"
    by (rule response_keeps_bound)
  from Cons.IH [OF this] c show ?case by simp
qed

text \<open>
  C6. The stored history is bounded. A new engine has no history; when every stored
  history has at most 20 messages, the same holds after a call of \<open>get_suspect_response\<close>
  (in either mode, whether the call succeeds or fails) and after every sequence of such
  calls; and a completed call of the API path leaves, for its suspect, the last 20
  messages of the old history followed by the question and the reply, that is the most
  recent 10 exchanges.
\<close>

theorem api_history_bounded:
  "history_bounded (new_engine api client :: ('c, 'e) AIDetectiveEngine) \<and>
   (history_bounded self \<longrightarrow>
      history_bounded (snd (get_suspect_response B db self suspect_id question streaming callback)) \<and>
      history_bounded (ask_all B db self calls)) \<and>
   (\<forall>reply. fst (get_suspect_response_api B db self suspect_id question streaming callback) = Inr reply \<longrightarrow>
      (\<exists>kept. api_chat_histories
                 (snd (get_suspect_response_api B db self suspect_id question streaming callback))
                 suspect_id = Some kept \<and>
              length kept \<le> 20 \<and>
              kept = (let appended =
                            (case api_chat_histories self suspect_id of None \<Rightarrow> [] | Some h \<Rightarrow> h)
                            @ [\<lparr>msg_role = ascii ''user'', msg_content = question\<rparr>,
                               \<lparr>msg_role = ascii ''assistant'', msg_content = reply\<rparr>]
                      in drop (length appended - 20) appended)))"
proof (intro conjI impI allI)
  show "history_bounded (new_engine api client :: ('c, 'e) AIDetectiveEngine)"
    by (simp add: history_bounded_def new_engine_def)
next
  assume "history_bounded self"
  then show "history_bounded (snd (get_suspect_response B db self suspect_id question streaming callback))"
    by (rule response_keeps_bound)
next
  assume "history_bounded self"
  then show "history_bounded (ask_all B db self calls)"
    by (rule ask_all_keeps_bound)
next
  fix reply
  assume "fst (get_suspect_response_api B db self suspect_id question streaming callback) = Inr reply"
  then show "\<exists>kept. api_chat_histories
                 (snd (get_suspect_response_api B db self suspect_id question streaming callback))
                 suspect_id = Some kept \<and>
              length kept \<le> 20 \<and>
              kept = (let appended =
                            (case api_chat_histories self suspect_id of None \<Rightarrow> [] | Some h \<Rightarrow> h)
                            @ [\<lparr>msg_role = ascii ''user'', msg_content = question\<rparr>,
                               \<lparr>msg_role = ascii ''assistant'', msg_content = reply\<rparr>]
                      in drop (length appended - 20) appended)"
    by (simp add: api_history_after Let_def)
qed

text \<open>
  A first question to suspect 1 in API mode, answered by \<open>flaky_backend\<close>: the history
  holds the question and the reply.
\<close>

theorem api_history_bounded_witness:
  "history_bounded (new_engine True (Some ()) :: (unit, nat) AIDetectiveEngine) \<and>
   history_bounded (ask_all flaky_backend example_db (new_engine True (Some ()))
     [(1, ascii ''Where were you?'', False, False)]) \<and>
   api_chat_histories
     (snd (get_suspect_response_api flaky_backend example_db (new_engine True (Some ())) 1
             (ascii ''Where were you?'') False False)) 1 =
     Some [\<lparr>msg_role = ascii ''user'', msg_content = ascii ''Where were you?''\<rparr>,
           \<lparr>msg_role = ascii ''assistant'', msg_content = ascii ''I was home. [sad]''\<rparr>]"
proof -
  have r: "fst (get_suspect_response_api flaky_backend example_db (new_engine True (Some ())) 1
             (ascii ''Where were you?'') False False) = Inr (ascii ''I was home. [sad]'')"
    by (simp add: get_suspect_response_api_def openai_chat_def flaky_backend_def
          new_engine_def Let_def)
  have e: "api_chat_histories (new_engine True (Some ()) :: (unit, nat) AIDetectiveEngine) 1 = None"
    by (simp add: new_engine_def)
  from api_history_bounded [where api = True and client = "Some ()"
      and self = "new_engine True (Some ()) :: (unit, nat) AIDetectiveEngine"
      and B = flaky_backend and db = example_db and suspect_id = 1
      and question = "ascii ''Where were you?''" and streaming = False and callback = False
      and calls = "[(1, ascii ''Where were you?'', False, False)]"] r e
  show ?thesis by (auto simp: Let_def)
qed

subsection \<open>One conversation object for each suspect\<close>












subsection \<open>Retries and the fallback reply\<close>

lemma chat_retry_step:
  "attempt < 2 \<Longrightarrow>
   chat_retry B q attempt b eng sl =
     (case chat B eng q of
        (Inr r, eng') \<Rightarrow> (Inr (Some r), eng', sl)
      | (Inl e, eng') \<Rightarrow> chat_retry B q (Suc attempt) (b * 2) eng' (sl @ [b]))"
  by (subst chat_retry.simps) (auto simp: max_retries_def split: prod.splits sum.splits)

lemma chat_retry_last:
  "chat_retry B q (Suc (Suc 0)) b eng sl =
     (case chat B eng q of
        (Inr r, eng') \<Rightarrow> (Inr (Some r), eng', sl)
      | (Inl e, eng') \<Rightarrow> (Inl e, eng', sl))"
  by (subst chat_retry.simps) (auto simp: max_retries_def split: prod.splits sum.splits)

lemma chat_retry_three:
  "chat_retry B q 0 1 eng0 [] =
     (case chat B eng0 q of
        (Inr r, eng1) \<Rightarrow> (Inr (Some r), eng1, [])
      | (Inl e1, eng1) \<Rightarrow>
          (case chat B eng1 q of
             (Inr r, eng2) \<Rightarrow> (Inr (Some r), eng2, [1])
           | (Inl e2, eng2) \<Rightarrow>
               (case chat B eng2 q of
                  (Inr r, eng3) \<Rightarrow> (Inr (Some r), eng3, [1, 2])
                | (Inl e3, eng3) \<Rightarrow> (Inl e3, eng3, [1, 2]))))"
proof -
  obtain r1 eng1 where c1: "chat B eng0 q = (r1, eng1)" by (cases "chat B eng0 q")
  obtain r2 eng2 where c2: "chat B eng1 q = (r2, eng2)" by (cases "chat B eng1 q")
  obtain r3 eng3 where c3: "chat B eng2 q = (r3, eng3)" by (cases "chat B eng2 q")
  have s0: "chat_retry B q 0 1 eng0 [] =
      (case r1 of Inr r \<Rightarrow> (Inr (Some r), eng1, [])
       | Inl e \<Rightarrow> chat_retry B q (Suc 0) 2 eng1 [1])"
    using chat_retry_step [of 0 B q 1 eng0 "[]"] c1 by (simp split: sum.splits)
  have s1: "chat_retry B q (Suc 0) 2 eng1 [1] =
      (case r2 of Inr r \<Rightarrow> (Inr (Some r), eng2, [1])
       | Inl e \<Rightarrow> chat_retry B q (Suc (Suc 0)) 4 eng2 [1, 2])"
    using chat_retry_step [of "Suc 0" B q 2 eng1 "[1]"] c2 by (simp split: sum.splits)
  have s2: "chat_retry B q (Suc (Suc 0)) 4 eng2 [1, 2] =
      (case r3 of Inr r \<Rightarrow> (Inr (Some r), eng3, [1, 2])
       | Inl e \<Rightarrow> (Inl e, eng3, [1, 2]))"
    using chat_retry_last [of B q 4 eng2 "[1, 2]"] c3 by (simp split: sum.splits)
  show ?thesis
    by (cases r1; cases r2; cases r3) (simp_all add: s0 s1 s2 c1 c2 c3 del: One_nat_def)
qed

lemma stream_retry_step:
  "attempt < 2 \<Longrightarrow>
   stream_retry B q attempt b full eng sl sent =
     (case stream_chat B eng q of
        ((tokens, None), eng') \<Rightarrow> (Inr (concat tokens), eng', sl, sent @ tokens)
      | ((tokens, Some e), eng') \<Rightarrow>
          stream_retry B q (Suc attempt) (b * 2) (concat tokens) eng' (sl @ [b]) (sent @ tokens))"
  by (subst stream_retry.simps) (auto simp: max_retries_def split: prod.splits option.splits)

lemma stream_retry_last:
  "stream_retry B q (Suc (Suc 0)) b full eng sl sent =
     (case stream_chat B eng q of
        ((tokens, None), eng') \<Rightarrow> (Inr (concat tokens), eng', sl, sent @ tokens)
      | ((tokens, Some e), eng') \<Rightarrow> (Inl e, eng', sl, sent @ tokens))"
  by (subst stream_retry.simps) (auto simp: max_retries_def split: prod.splits option.splits)

lemma stream_retry_three:
  "stream_retry B q 0 1 [] eng0 [] [] =
     (case stream_chat B eng0 q of
        ((t1, None), eng1) \<Rightarrow> (Inr (concat t1), eng1, [], t1)
      | ((t1, Some e1), eng1) \<Rightarrow>
          (case stream_chat B eng1 q of
             ((t2, None), eng2) \<Rightarrow> (Inr (concat t2), eng2, [1], t1 @ t2)
           | ((t2, Some e2), eng2) \<Rightarrow>
               (case stream_chat B eng2 q of
                  ((t3, None), eng3) \<Rightarrow> (Inr (concat t3), eng3, [1, 2], t1 @ t2 @ t3)
                | ((t3, Some e3), eng3) \<Rightarrow> (Inl e3, eng3, [1, 2], t1 @ t2 @ t3))))"
proof -
  obtain t1 x1 eng1 where c1: "stream_chat B eng0 q = ((t1, x1), eng1)"
    by (cases "stream_chat B eng0 q") auto
  obtain t2 x2 eng2 where c2: "stream_chat B eng1 q = ((t2, x2), eng2)"
    by (cases "stream_chat B eng1 q") auto
  obtain t3 x3 eng3 where c3: "stream_chat B eng2 q = ((t3, x3), eng3)"
    by (cases "stream_chat B eng2 q") auto
  have s0: "stream_retry B q 0 1 [] eng0 [] [] =
      (case x1 of None \<Rightarrow> (Inr (concat t1), eng1, [], t1)
       | Some e \<Rightarrow> stream_retry B q (Suc 0) 2 (concat t1) eng1 [1] t1)"
    using stream_retry_step [of 0 B q 1 "[]" eng0 "[]" "[]"] c1 by (simp split: option.splits)
  have s1: "stream_retry B q (Suc 0) 2 (concat t1) eng1 [1] t1 =
      (case x2 of None \<Rightarrow> (Inr (concat t2), eng2, [1], t1 @ t2)
       | Some e \<Rightarrow> stream_retry B q (Suc (Suc 0)) 4 (concat t2) eng2 [1, 2] (t1 @ t2))"
    using stream_retry_step [of "Suc 0" B q 2 "concat t1" eng1 "[1]" t1] c2
    by (simp split: option.splits)
  have s2: "stream_retry B q (Suc (Suc 0)) 4 (concat t2) eng2 [1, 2] (t1 @ t2) =
      (case x3 of None \<Rightarrow> (Inr (concat t3), eng3, [1, 2], t1 @ t2 @ t3)
       | Some e \<Rightarrow> (Inl e, eng3, [1, 2], t1 @ t2 @ t3))"
    using stream_retry_last [of B q 4 "concat t2" eng2 "[1, 2]" "t1 @ t2"] c3
    by (simp split: option.splits)
  show ?thesis
    by (cases x1; cases x2; cases x3) (simp_all add: s0 s1 s2 c1 c2 c3 del: One_nat_def)
qed

text \<open>
  C2, with its mode and its last step made exact. In the local mode the chat call of the
  suspect's chat engine (\<open>chat\<close>, or \<open>stream_chat\<close> when a reply is streamed to a
  callback) is attempted at most 3 times. The first attempt that answers ends the loop.
  After a failed first attempt the engine sleeps 1 second, after a failed second attempt
  2 seconds. When all three attempts fail, \<open>_get_suspect_response_ollama\<close> raises the
  third failure again, and \<open>get_suspect_response\<close> catches it: its caller receives the
  fallback reply, which names the class of the exception and the first 100 characters of
  its message.
\<close>

theorem ollama_retry_then_fallback:
  assumes "\<not> (use_api self \<and> openai_client self \<noteq> None)"
  shows
   "(let eng0 = (case chat_engines self suspect_id of
                   None \<Rightarrow> from_defaults B (create_system_prompt db suspect_id)
                 | Some eng \<Rightarrow> eng);
         ends = (\<lambda>r eng sleeps sent.
           get_suspect_response_ollama B db self suspect_id question streaming callback =
             (r, self\<lparr>chat_engines := (chat_engines self)(suspect_id \<mapsto> eng),
                      slept := slept self @ sleeps,
                      streamed := streamed self @ sent\<rparr>) \<and>
           get_suspect_response B db self suspect_id question streaming callback =
             (Inr (case r of Inl e \<Rightarrow> fallback_response e | Inr reply \<Rightarrow> reply),
              self\<lparr>chat_engines := (chat_engines self)(suspect_id \<mapsto> eng),
                   slept := slept self @ sleeps,
                   streamed := streamed self @ sent\<rparr>))
     in if streaming \<and> callback then
          (case stream_chat B eng0 question of
             ((t1, None), eng1) \<Rightarrow> ends (Inr (concat t1)) eng1 [] t1
           | ((t1, Some e1), eng1) \<Rightarrow>
               (case stream_chat B eng1 question of
                  ((t2, None), eng2) \<Rightarrow> ends (Inr (concat t2)) eng2 [1] (t1 @ t2)
                | ((t2, Some e2), eng2) \<Rightarrow>
                    (case stream_chat B eng2 question of
                       ((t3, None), eng3) \<Rightarrow> ends (Inr (concat t3)) eng3 [1, 2] (t1 @ t2 @ t3)
                     | ((t3, Some e3), eng3) \<Rightarrow> ends (Inl e3) eng3 [1, 2] (t1 @ t2 @ t3))))
        else
          (case chat B eng0 question of
             (Inr reply, eng1) \<Rightarrow> ends (Inr reply) eng1 [] []
           | (Inl e1, eng1) \<Rightarrow>
               (case chat B eng1 question of
                  (Inr reply, eng2) \<Rightarrow> ends (Inr reply) eng2 [1] []
                | (Inl e2, eng2) \<Rightarrow>
                    (case chat B eng2 question of
                       (Inr reply, eng3) \<Rightarrow> ends (Inr reply) eng3 [1, 2] []
                     | (Inl e3, eng3) \<Rightarrow> ends (Inl e3) eng3 [1, 2] []))))"
proof -
  let ?eng0 = "case chat_engines self suspect_id of
                 None \<Rightarrow> from_defaults B (create_system_prompt db suspect_id)
               | Some eng \<Rightarrow> eng"
  from assms have na: "(use_api self \<and> openai_client self \<noteq> None) = False" by simp
  have gs: "get_suspect_response B db self suspect_id question streaming callback =
      (case get_suspect_response_ollama B db self suspect_id question streaming callback of
         (Inr response_text, self') \<Rightarrow> (Inr response_text, self')
       | (Inl e, self') \<Rightarrow> (Inr (fallback_response e), self'))"
    unfolding get_suspect_response_def na by simp
  show ?thesis
  proof (cases "streaming \<and> callback")
    case False
    then have nb: "(streaming \<and> callback) = False" by simp
    obtain r1 eng1 where c1: "chat B ?eng0 question = (r1, eng1)"
      by (cases "chat B ?eng0 question")
    obtain r2 eng2 where c2: "chat B eng1 question = (r2, eng2)"
      by (cases "chat B eng1 question")
    obtain r3 eng3 where c3: "chat B eng2 question = (r3, eng3)"
      by (cases "chat B eng2 question")
    have ol: "get_suspect_response_ollama B db self suspect_id question streaming callback =
        (case chat_retry B question 0 1 ?eng0 [] of
           (r, eng', sleeps) \<Rightarrow>
             (case r of Inl e \<Rightarrow> Inl e | Inr response \<Rightarrow> Inr (str_response response),
              self\<lparr>chat_engines := (chat_engines self)(suspect_id \<mapsto> eng'),
                   slept := slept self @ sleeps\<rparr>))"
      unfolding get_suspect_response_ollama_def Let_def nb by simp
    have cr: "chat_retry B question 0 1 ?eng0 [] =
        (case r1 of Inr r \<Rightarrow> (Inr (Some r), eng1, [])
         | Inl e1 \<Rightarrow>
            (case r2 of Inr r \<Rightarrow> (Inr (Some r), eng2, [1])
             | Inl e2 \<Rightarrow>
                (case r3 of Inr r \<Rightarrow> (Inr (Some r), eng3, [1, 2])
                 | Inl e3 \<Rightarrow> (Inl e3, eng3, [1, 2]))))"
      by (cases r1; cases r2; cases r3)
         (simp_all add: chat_retry_three c1 c2 c3 del: One_nat_def)
    show ?thesis
      by (cases r1; cases r2; cases r3)
         (simp_all add: Let_def nb gs ol cr c1 c2 c3 str_response_def del: One_nat_def)
  next
    case True
    then have nb: "(streaming \<and> callback) = True" by simp
    obtain t1 x1 eng1 where c1: "stream_chat B ?eng0 question = ((t1, x1), eng1)"
      by (cases "stream_chat B ?eng0 question") auto
    obtain t2 x2 eng2 where c2: "stream_chat B eng1 question = ((t2, x2), eng2)"
      by (cases "stream_chat B eng1 question") auto
    obtain t3 x3 eng3 where c3: "stream_chat B eng2 question = ((t3, x3), eng3)"
      by (cases "stream_chat B eng2 question") auto
    have ol: "get_suspect_response_ollama B db self suspect_id question streaming callback =
        (case stream_retry B question 0 1 [] ?eng0 [] [] of
           (r, eng', sleeps, sent) \<Rightarrow>
             (r, self\<lparr>chat_engines := (chat_engines self)(suspect_id \<mapsto> eng'),
                      slept := slept self @ sleeps,
                      streamed := streamed self @ sent\<rparr>))"
      unfolding get_suspect_response_ollama_def Let_def nb by simp
    have sr: "stream_retry B question 0 1 [] ?eng0 [] [] =
        (case x1 of None \<Rightarrow> (Inr (concat t1), eng1, [], t1)
         | Some e1 \<Rightarrow>
            (case x2 of None \<Rightarrow> (Inr (concat t2), eng2, [1], t1 @ t2)
             | Some e2 \<Rightarrow>
                (case x3 of None \<Rightarrow> (Inr (concat t3), eng3, [1, 2], t1 @ t2 @ t3)
                 | Some e3 \<Rightarrow> (Inl e3, eng3, [1, 2], t1 @ t2 @ t3))))"
      by (cases x1; cases x2; cases x3)
         (simp_all add: stream_retry_three c1 c2 c3 del: One_nat_def)
    show ?thesis
      by (cases x1; cases x2; cases x3)
         (simp_all add: Let_def nb gs ol sr c1 c2 c3 del: One_nat_def)
  qed
qed

text \<open>
  Under \<open>flaky_backend\<close> the first attempt fails and the second answers: one sleep of 1
  second, two calls on the chat engine.
\<close>

theorem ollama_retry_then_fallback_witness:
  "get_suspect_response flaky_backend example_db (new_engine False None) 1
       (ascii ''Where were you?'') False False =
     (Inr (ascii ''I was home. [sad]''),
      (new_engine False None)\<lparr>chat_engines := [1 \<mapsto> 2], slept := [1]\<rparr>)"
proof -
  have a: "\<not> (use_api (new_engine False None :: (unit, nat) AIDetectiveEngine)
      \<and> openai_client (new_engine False None :: (unit, nat) AIDetectiveEngine) \<noteq> None)"
    by (simp add: new_engine_def)
  from ollama_retry_then_fallback [OF a, where B = flaky_backend and db = example_db
      and suspect_id = 1 and question = "ascii ''Where were you?''"
      and streaming = False and callback = False]
  show ?thesis
    by (simp add: flaky_backend_def new_engine_def Let_def numeral_2_eq_2)
qed

text \<open>
  C2 as it was stated fails: when every attempt fails, the caller of
  \<open>get_suspect_response\<close> receives no exception. Under \<open>failing_backend\<close> the three
  attempts are made, with sleeps of 1 and 2 seconds, and the call returns the fallback
  reply.
\<close>

theorem get_suspect_response_swallows_failure:
  "get_suspect_response failing_backend example_db (new_engine False None) 1
       (ascii ''Where were you?'') False False =
     (Inr (fallback_response (LibError (ascii ''ResponseError'') (ascii ''503''))),
      (new_engine False None)\<lparr>chat_engines := [1 \<mapsto> 3], slept := [1, 2]\<rparr>)"
proof -
  have cr: "chat_retry failing_backend (ascii ''Where were you?'') 0 1 0 [] =
      (Inl (LibError (ascii ''ResponseError'') (ascii ''503'')), 3, [1, 2])"
    by (simp add: chat_retry_three failing_backend_def del: One_nat_def)
  have fd: "from_defaults failing_backend p = 0" for p
    by (simp add: failing_backend_def)
  show ?thesis
    unfolding get_suspect_response_def get_suspect_response_ollama_def Let_def
    by (simp add: new_engine_def fd cr del: One_nat_def)
qed

subsection \<open>The system prompt\<close>


lemma on_new_lines_append: "on_new_lines (xs @ ys) = on_new_lines xs @ on_new_lines ys"
  by (simp add: on_new_lines_def)




text \<open>The lines that the forbidden lines and the interview modes contribute.\<close>

lemma forbidden_lines_in_prompt:
  "on_new_lines (forbidden_line_parts char) =
     [10] @ lit_forbidden_lines @ name char @ ascii '']:''
     @ concat (map (\<lambda>line. [10] @ ascii ''- '' @ line) (opt_get (forbidden_lines char) []))"
  by (simp add: on_new_lines_def forbidden_line_parts_def comp_def)

lemma interview_modes_in_prompt:
  "on_new_lines (interview_mode_parts char) =
     [10] @ lit_allowed_modes @ str_nat (length (opt_get (interview_modes char) []))
     @ lit_modes_count
     @ concat (map (\<lambda>(i, mode). [10] @ str_nat i @ ascii ''. '' @ mode)
                 (enumerate 1 (opt_get (interview_modes char) [])))"
  by (simp add: on_new_lines_def interview_mode_parts_def Let_def comp_def case_prod_unfold)

lemma example_prompt_modes:
  "on_new_lines (interview_mode_parts example_character) =
     [10] @ lit_allowed_modes @ ascii ''2'' @ lit_modes_count
     @ [10] @ ascii ''1. sad'' @ [10] @ ascii ''2. angry''"
  by (simp add: interview_modes_in_prompt example_character_def opt_get_def enumerate_eq_zip
        str_nat.simps ascii_simps upt_rec)

text \<open>
  The prompt of the example character, part by part, and an identifier that is not in
  the table.
\<close>

lemma example_prompt:
  "get_character_system_prompt example_db 1 =
     Inr (str_join [10]
       [lit_system_role, lit_role_text, lit_game_rules, ascii ''Stay in character.'', [10],
        lit_forbidden_behaviors, lit_allowed_behaviors,
        lit_your_character @ ascii ''Garon (blacksmith)]'',
        lit_identity_core, ascii ''A maker of blades.'',
        lit_psychological_shadow, [], lit_inner_conflict, [], lit_identity_lens, [],
        lit_core_philosophy, [], lit_dialogue_style, [],
        lit_forbidden_lines @ ascii ''Garon]:'', ascii ''- I did it'',
        lit_allowed_modes @ ascii ''2'' @ lit_modes_count, ascii ''1. sad'', ascii ''2. angry'',
        lit_output_format,
        lit_critical @ ascii ''[sad], [angry]'' @ lit_example @ ascii ''sad'' @ lit_do_not,
        [10],
        lit_signature @ [34]]) \<and>
   get_character_system_prompt example_db 7 = Inl (ValueError (ascii ''Invalid suspect_id: 7''))"
  by (simp add: get_character_system_prompt_def prompt_parts_def role_parts_def
        interrogation_parts_def behavior_parts_def persona_parts_def forbidden_line_parts_def
        interview_mode_parts_def context_parts_def output_format_parts_def closing_parts_def
        example_eval str_eval opt_get_def Let_def str_join_def enumerate_eq_zip upt_rec)

subsection \<open>The invariant of the game state\<close>

lemma py_eq_days: "is_day a \<Longrightarrow> is_day b \<Longrightarrow> py_eq a b = (a = b)"
  by (cases a; cases b) auto

lemma is_day_Final: "is_day (PStr (ascii ''Final''))"
  by simp

lemma dated_page_getitem:
  "dated_page p \<Longrightarrow> \<exists>d. page_day p = Some d \<and> is_day d \<and> py_getitem p (ascii ''day'') = Inr d"
  by (cases p) (auto simp: dated_page_def page_day_def split: option.splits)



lemma find_current_found:
  assumes "is_day day"
  shows "list_all dated_page pages \<Longrightarrow> list_ex (\<lambda>p. page_day p = Some day) pages \<Longrightarrow>
     \<exists>j p. find_current pages day i = Inr (Some (j, p)) \<and> i \<le> j \<and> j < i + length pages \<and>
           pages ! (j - i) = p \<and>
           (page_day p = Some day \<or> page_day p = Some (PStr (ascii ''Final'')))"
proof (induction pages arbitrary: i)
  case Nil
  then show ?case by simp
next
  case (Cons page rest)
  from Cons.prems(1) have dp: "dated_page page" and dr: "list_all dated_page rest" by simp_all
  from dated_page_getitem [OF dp] obtain d where
    d: "page_day page = Some d" "is_day d" "py_getitem page (ascii ''day'') = Inr d" by blast
  show ?case
  proof (cases "d = day \<or> d = PStr (ascii ''Final'')")
    case True
    with d assms have "find_current (page # rest) day i = Inr (Some (i, page))"
      by (auto simp: py_eq_days)
    with True d show ?thesis by auto
  next
    case False
    with d assms have step: "find_current (page # rest) day i = find_current rest day (Suc i)"
      by (simp add: py_eq_days)
    from False d Cons.prems(2) have "list_ex (\<lambda>p. page_day p = Some day) rest" by auto
    from Cons.IH [OF dr this, of "Suc i"] obtain j p where
      f: "find_current rest day (Suc i) = Inr (Some (j, p))" "Suc i \<le> j" "j < Suc i + length rest"
         "rest ! (j - Suc i) = p"
         "page_day p = Some day \<or> page_day p = Some (PStr (ascii ''Final''))" by blast
    from f(2) have "(page # rest) ! (j - i) = rest ! (j - Suc i)"
      by (simp add: nth_Cons' Suc_diff_Suc le_imp_less_Suc)
    with f step show ?thesis by auto
  qed
qed


lemma game_inv_pages:
  "game_inv self \<Longrightarrow> \<exists>pages. notebook_pages self = PList pages"
  by (cases "notebook_pages self") (simp_all add: game_inv_def)

lemma game_inv_unfold:
  "notebook_pages self = PList pages \<Longrightarrow>
   game_inv self =
     (pages \<noteq> [] \<and> is_day (current_day self) \<and> list_all dated_page pages \<and>
      list_ex (\<lambda>p. page_day p = Some (current_day self)) pages \<and>
      (list_ex (\<lambda>p. page_day p = Some (PStr (ascii ''Final''))) pages
         \<longrightarrow> current_day self = PStr (ascii ''Final'')))"
  by (simp add: game_inv_def)







lemma get_current_page_inv:
  assumes "game_inv self" and "notebook_pages self = PList pages"
  shows "\<exists>i p. find_current pages (current_day self) 0 = Inr (Some (i, p)) \<and>
           current_page_ref self = Inr (Some i, p) \<and>
           get_current_page self = Inr p \<and>
           i < length pages \<and> pages ! i = p \<and>
           page_day p = Some (current_day self)"
proof -
  from assms have inv: "pages \<noteq> []" "is_day (current_day self)" "list_all dated_page pages"
    "list_ex (\<lambda>p. page_day p = Some (current_day self)) pages"
    "list_ex (\<lambda>p. page_day p = Some (PStr (ascii ''Final''))) pages
       \<longrightarrow> current_day self = PStr (ascii ''Final'')"
    by (simp_all add: game_inv_unfold)
  from find_current_found [OF inv(2,3,4), of 0] obtain j p where
    f: "find_current pages (current_day self) 0 = Inr (Some (j, p))" "j < length pages"
       "pages ! j = p"
       "page_day p = Some (current_day self) \<or> page_day p = Some (PStr (ascii ''Final''))"
    by auto
  from f(2,3) have mem: "p \<in> set pages" by auto
  have day: "page_day p = Some (current_day self)"
  proof (cases "page_day p = Some (current_day self)")
    case True
    then show ?thesis .
  next
    case False
    with f(4) have pf: "page_day p = Some (PStr (ascii ''Final''))" by simp
    with mem have "list_ex (\<lambda>p. page_day p = Some (PStr (ascii ''Final''))) pages"
      by (auto simp: list_ex_iff)
    with inv(5) pf show ?thesis by simp
  qed
  from f(1) assms(2) have "current_page_ref self = Inr (Some j, p)"
    by (simp add: current_page_ref_def)
  moreover from this have "get_current_page self = Inr p"
    by (simp add: get_current_page_def)
  ultimately show ?thesis using f day by blast
qed

lemma map_of_dict_set:
  "map_of (dict_set d key v) k = (if k = key then Some v else map_of d k)"
  by (induction d) auto

lemma page_day_set_content:
  "page_day (PDict (dict_set d (ascii ''content'') v)) = page_day (PDict d)"
  by (simp add: page_day_def map_of_dict_set ascii_simps)

lemma game_inv_by_days:
  assumes "notebook_pages a = PList ps" and "notebook_pages b = PList qs"
    and "map page_day ps = map page_day qs" and "current_day a = current_day b"
  shows "game_inv a = game_inv b"
proof -
  have l: "length ps = length qs" using assms(3) by (metis length_map)
  have e: "list_ex (\<lambda>p. page_day p = Some d) ps = list_ex (\<lambda>p. page_day p = Some d) qs" for d
  proof -
    have "list_ex (\<lambda>p. page_day p = Some d) xs = (Some d \<in> set (map page_day xs))" for xs
      by (force simp: list_ex_iff)
    then show ?thesis using assms(3) by (metis set_map)
  qed
  have a: "list_all dated_page ps = list_all dated_page qs"
  proof -
    have "list_all dated_page xs =
        list_all (\<lambda>d. case d of Some d \<Rightarrow> is_day d | None \<Rightarrow> False) (map page_day xs)" for xs
      by (simp add: list_all_iff dated_page_def)
    then show ?thesis using assms(3) by metis
  qed
  from l have n: "(ps = []) = (qs = [])" by auto
  show ?thesis
    using assms(1,2,4) n a e by (simp add: game_inv_def)
qed

lemma update_current_page_inv:
  assumes "game_inv self"
  shows "fst (update_current_page self content) = None"
    and "game_inv (snd (update_current_page self content))"
    and "current_day (snd (update_current_page self content)) = current_day self"
proof -
  from game_inv_pages [OF assms] obtain pages where p: "notebook_pages self = PList pages"
    by blast
  from get_current_page_inv [OF assms p] obtain i page where
    g: "current_page_ref self = Inr (Some i, page)" "i < length pages" "pages ! i = page"
       "page_day page = Some (current_day self)"
    by blast
  from g(4) obtain d where d: "page = PDict d"
    by (cases page) (simp_all add: page_day_def)
  let ?new = "PDict (dict_set d (ascii ''content'') (PStr content))"
  have u: "update_current_page self content =
      (None, self\<lparr>notebook_pages := PList (pages[i := ?new])\<rparr>)"
    using g(1) p d by (simp add: update_current_page_def)
  have "map page_day (pages[i := ?new]) = map page_day pages"
    using g(2,3) d by (simp add: map_update page_day_set_content list_update_same_conv)
  then have "game_inv (self\<lparr>notebook_pages := PList (pages[i := ?new])\<rparr>) = game_inv self"
    using p
      game_inv_by_days [of "self\<lparr>notebook_pages := PList (pages[i := ?new])\<rparr>"
        "pages[i := ?new]" self pages]
    by simp
  with u assms show "fst (update_current_page self content) = None"
    and "game_inv (snd (update_current_page self content))"
    and "current_day (snd (update_current_page self content)) = current_day self"
    by simp_all
qed



subsection \<open>Saving and loading\<close>



text \<open>A write that fails on the way leaves a file that \<open>load\<close> rejects.\<close>

lemma load_after_failed_write:
  "save_file other = save_file self \<Longrightarrow> load other (save self WriteFailed fs) = (False, other)"
  by (simp add: load_def save_def Let_def)


end
